theory Spec2Isabelle
  imports Main "HOL-Library.Multiset"
begin

section \<open>Data model of the match engine (backend/main.go)\<close>

text \<open>
  The Go structs \<open>Card\<close>, \<open>Player\<close> and \<open>Game\<close> become records. The websocket
  connection of a player and the mutex of a game carry no game data and are left out;
  every operation below is one critical section of the source, so it is a function from
  the state before to the state after. The field \<open>ID\<close> of \<open>Game\<close> is called \<open>GameID\<close>
  here, because \<open>Player\<close> has a field \<open>ID\<close> too.
\<close>

record Card =
  Suit :: string
  Rank :: string
  FaceUp :: bool

record Player =
  ID :: string
  Name :: string
  Cards :: "Card list"
  Ready :: bool
  Score :: int

record Game =
  GameID :: string
  Players :: "string \<rightharpoonup> Player"
  Deck :: "Card list"
  DiscardPile :: "Card list"
  DrawnCards :: "string \<rightharpoonup> Card"
  HasDrawnThisTurn :: "string \<Rightarrow> bool"
  PendingSpecialCard :: string
  CurrentPlayer :: string
  Status :: string
  PabloCalled :: bool
  PabloCaller :: string
  StackableCardIndex :: int
  StackedSpecialCardPlayers :: "string list"

text \<open>The zero value of \<open>Card\<close>, which \<open>make([]Card, 4)\<close> fills a hand with.\<close>

definition emptyCard :: Card where
  "emptyCard = \<lparr>Suit = '''', Rank = '''', FaceUp = False\<rparr>"

text \<open>A runtime panic of the Go code: a nil pointer dereference or an index out of range.\<close>

datatype panic = NilDereference | IndexOutOfRange

text \<open>
  A value decoded from JSON into \<open>interface{}\<close>. A number arrives as a \<open>float64\<close> and the
  code only ever uses \<open>int(x)\<close> of it, so \<open>JNumber i\<close> stands for any number whose
  conversion gives \<open>i\<close>.
\<close>

datatype jsonValue = JNumber int | JString string | JOther

text \<open>The two messages that carry the data of a card to a client.\<close>

datatype message =
    CardRevealed string "string option" int Card
  | SwapEvent string int Card string int Card

definition suits :: "string list" where
  "suits = [''hearts'', ''diamonds'', ''clubs'', ''spades'']"

definition ranks :: "string list" where
  "ranks = [''A'', ''2'', ''3'', ''4'', ''5'']
             @ [''6'', ''7'', ''8'', ''9'', ''10'', ''J'', ''Q'', ''K'']"

definition createDeck :: "Card list" where
  "createDeck =
     concat (map (\<lambda>suit. map (\<lambda>rank. \<lparr>Suit = suit, Rank = rank, FaceUp = False\<rparr>) ranks) suits)"

text \<open>
  \<open>NewGame\<close> shuffles the deck with a random permutation; the shuffled deck is the
  parameter \<open>deck\<close>, a permutation of \<open>createDeck\<close>.
\<close>

definition NewGame :: "string \<Rightarrow> Card list \<Rightarrow> Game" where
  "NewGame gid deck =
     \<lparr>GameID = gid, Players = Map.empty, Deck = deck, DiscardPile = [],
      DrawnCards = Map.empty, HasDrawnThisTurn = (\<lambda>_. False), PendingSpecialCard = '''',
      CurrentPlayer = '''', Status = ''waiting'', PabloCalled = False, PabloCaller = '''',
      StackableCardIndex = - 1, StackedSpecialCardPlayers = []\<rparr>"

definition AddPlayer :: "string \<Rightarrow> string \<Rightarrow> Game \<Rightarrow> bool \<times> Game" where
  "AddPlayer pid name g =
     (if card (dom (Players g)) \<ge> 6 then (False, g)
      else (True, g\<lparr>Players := (Players g)(pid \<mapsto>
              \<lparr>ID = pid, Name = name, Cards = replicate 4 emptyCard, Ready = False, Score = 0\<rparr>)\<rparr>))"

text \<open>
  Go does not fix the order in which a loop meets the keys of a map, and the order may
  change from one loop to the next. A loop over \<open>g.Players\<close> therefore takes the order
  of that iteration as a parameter: a list \<open>ks\<close> of the keys. \<open>enumerates g ks\<close> admits
  every order without repetition, which is more than the runtime produces; what is
  proved for every such order holds for the orders of the running program too.
\<close>

definition enumerates :: "Game \<Rightarrow> string list \<Rightarrow> bool" where
  "enumerates g ks \<longleftrightarrow> distinct ks \<and> set ks = dom (Players g)"

definition isSpecial :: "string \<Rightarrow> bool" where
  "isSpecial r \<longleftrightarrow> r = ''7'' \<or> r = ''8'' \<or> r = ''9''"

subsection \<open>Scoring and the end of a round\<close>

definition getCardValue :: "Card \<Rightarrow> int" where
  "getCardValue c =
     (if Rank c = ''K'' \<and> (Suit c = ''hearts'' \<or> Suit c = ''diamonds'') then - 1
      else if Rank c = ''J'' \<or> Rank c = ''Q'' then 10
      else if Rank c = ''K'' then 10
      else if Rank c = ''A'' then 1
      else if Rank c = ''2'' then 2
      else if Rank c = ''3'' then 3
      else if Rank c = ''4'' then 4
      else if Rank c = ''5'' then 5
      else if Rank c = ''6'' then 6
      else if Rank c = ''7'' then 7
      else if Rank c = ''8'' then 8
      else if Rank c = ''9'' then 9
      else if Rank c = ''10'' then 10
      else 0)"

fun scoreLoop :: "Card list \<Rightarrow> int \<Rightarrow> int" where
  "scoreLoop [] score = score"
| "scoreLoop (c # cs) score =
     (if Rank c \<noteq> '''' then scoreLoop cs (score + getCardValue c) else scoreLoop cs score)"

definition revealAndScore :: "Player \<Rightarrow> Player" where
  "revealAndScore p =
     (let cs = map (\<lambda>c. c\<lparr>FaceUp := True\<rparr>) (Cards p)
      in p\<lparr>Cards := cs, Score := scoreLoop cs 0\<rparr>)"

definition EndRound :: "Game \<Rightarrow> Game" where
  "EndRound g =
     g\<lparr>Status := ''ended'', PabloCalled := False, PabloCaller := '''',
       Players := (\<lambda>pid. map_option revealAndScore (Players g pid))\<rparr>"

subsection \<open>Starting a match\<close>

text \<open>The inner loop of \<open>StartGame\<close>: slot \<open>i\<close> takes the front card of the deck, if there is one.\<close>

fun dealLoop :: "nat list \<Rightarrow> Card list \<Rightarrow> Card list \<Rightarrow> Card list \<times> Card list" where
  "dealLoop [] cards deck = (cards, deck)"
| "dealLoop (i # is) cards [] = dealLoop is cards []"
| "dealLoop (i # is) cards (c # rest) = dealLoop is (cards[i := c]) rest"

fun dealPlayers :: "string list \<Rightarrow> Game \<Rightarrow> Game" where
  "dealPlayers [] g = g"
| "dealPlayers (k # ks) g =
     (case Players g k of
        None \<Rightarrow> dealPlayers ks g
      | Some p \<Rightarrow>
          (case dealLoop [0, 1, 2, 3] (replicate 4 emptyCard) (Deck g) of
             (cs, d) \<Rightarrow> dealPlayers ks (g\<lparr>Players := (Players g)(k \<mapsto> p\<lparr>Cards := cs\<rparr>), Deck := d\<rparr>)))"

text \<open>
  \<open>StartGame\<close> ranges over the players twice: \<open>ks\<close> is the order of the dealing loop,
  \<open>ks'\<close> the order of the loop that picks the first player.
\<close>

definition StartGame :: "string list \<Rightarrow> string list \<Rightarrow> Game \<Rightarrow> Game" where
  "StartGame ks ks' g =
     (if card (dom (Players g)) < 2 then g
      else (dealPlayers ks (g\<lparr>Status := ''playing''\<rparr>))
             \<lparr>CurrentPlayer := (case ks' of [] \<Rightarrow> '''' | k # _ \<Rightarrow> k)\<rparr>)"

subsection \<open>The turn engine\<close>

definition DrawCard :: "string \<Rightarrow> Game \<Rightarrow> bool \<times> Game" where
  "DrawCard pid g =
     (if CurrentPlayer g \<noteq> pid then (False, g)
      else case Deck g of
        [] \<Rightarrow> (if Status g = ''playing'' then (False, EndRound g) else (False, g))
      | c # rest \<Rightarrow>
          if HasDrawnThisTurn g pid then (False, g)
          else (True, g\<lparr>Deck := rest,
                        DrawnCards := (DrawnCards g)(pid \<mapsto> c\<lparr>FaceUp := True\<rparr>),
                        HasDrawnThisTurn := (HasDrawnThisTurn g)(pid := True)\<rparr>))"

definition DiscardDrawnCard :: "string \<Rightarrow> Game \<Rightarrow> bool \<times> Game" where
  "DiscardDrawnCard pid g =
     (if CurrentPlayer g \<noteq> pid then (False, g)
      else case DrawnCards g pid of
        None \<Rightarrow> (False, g)
      | Some drawn \<Rightarrow>
          (let c = drawn\<lparr>FaceUp := True\<rparr>;
               pile = DiscardPile g @ [c];
               g1 = g\<lparr>DiscardPile := pile, DrawnCards := (DrawnCards g)(pid := None),
                      StackableCardIndex := int (length pile) - 1\<rparr>
           in if isSpecial (Rank c) then (True, g1\<lparr>PendingSpecialCard := Rank c\<rparr>)
              else (True, g1\<lparr>PendingSpecialCard := ''''\<rparr>)))"

text \<open>\<open>g.Players[playerID].Cards\<close> dereferences a nil pointer when the player is unknown.\<close>

definition SwapCard :: "string \<Rightarrow> int \<Rightarrow> Game \<Rightarrow> panic + bool \<times> Game" where
  "SwapCard pid cardIndex g =
     (if CurrentPlayer g \<noteq> pid then Inr (False, g)
      else case DrawnCards g pid of
        None \<Rightarrow> Inr (False, g)
      | Some drawn \<Rightarrow>
          (case Players g pid of
             None \<Rightarrow> Inl NilDereference
           | Some p \<Rightarrow>
               if cardIndex < 0 \<or> cardIndex \<ge> int (length (Cards p)) then Inr (False, g)
               else
                 (let i = nat cardIndex;
                      oldCard = (Cards p ! i)\<lparr>FaceUp := True\<rparr>;
                      p' = p\<lparr>Cards := (Cards p)[i := drawn\<lparr>FaceUp := False\<rparr>]\<rparr>;
                      pile = DiscardPile g @ [oldCard];
                      g1 = g\<lparr>Players := (Players g)(pid \<mapsto> p'), DiscardPile := pile,
                             DrawnCards := (DrawnCards g)(pid := None),
                             StackableCardIndex := int (length pile) - 1\<rparr>
                  in if isSpecial (Rank oldCard) then Inr (True, g1\<lparr>PendingSpecialCard := Rank oldCard\<rparr>)
                     else Inr (True, g1\<lparr>PendingSpecialCard := ''''\<rparr>))))"

definition CallPablo :: "string \<Rightarrow> Game \<Rightarrow> Game" where
  "CallPablo pid g =
     (if Status g \<noteq> ''playing'' \<or> PabloCalled g then g
      else g\<lparr>PabloCalled := True, PabloCaller := pid\<rparr>)"

text \<open>The search loop of \<open>EndTurn\<close>: the first index of \<open>pid\<close> in the list, if any.\<close>

fun indexOf :: "string list \<Rightarrow> string \<Rightarrow> nat option" where
  "indexOf [] pid = None"
| "indexOf (k # ks) pid = (if k = pid then Some 0 else map_option Suc (indexOf ks pid))"

text \<open>\<open>ks\<close> is the order in which this call's loop over \<open>g.Players\<close> fills \<open>playerIDs\<close>.\<close>

definition EndTurn :: "string list \<Rightarrow> string \<Rightarrow> Game \<Rightarrow> Game" where
  "EndTurn ks pid g =
     (if CurrentPlayer g \<noteq> pid then g
      else if DrawnCards g pid \<noteq> None then g
      else if DiscardPile g \<noteq> [] \<and> isSpecial (Rank (last (DiscardPile g)))
              \<and> PendingSpecialCard g \<noteq> '''' then g
      else case indexOf ks pid of
        None \<Rightarrow> g
      | Some currentIdx \<Rightarrow>
          (let nextIdx = (currentIdx + 1) mod length ks;
               g1 = g\<lparr>DrawnCards := (DrawnCards g)(pid := None),
                      HasDrawnThisTurn := (HasDrawnThisTurn g)(pid := False)\<rparr>
           in if PabloCalled g1 \<and> ks ! nextIdx = PabloCaller g1 then EndRound g1
              else g1\<lparr>CurrentPlayer := ks ! nextIdx,
                      HasDrawnThisTurn := (HasDrawnThisTurn g1)(ks ! nextIdx := False)\<rparr>))"

subsection \<open>The special cards 7, 8 and 9\<close>

text \<open>
  The type assertions \<open>params[k].(float64)\<close> and \<open>params[k].(string)\<close>: they fail on a
  missing key and on a value of another type alike.
\<close>

fun asNumber :: "jsonValue option \<Rightarrow> int option" where
  "asNumber (Some (JNumber i)) = Some i"
| "asNumber v = None"

fun asString :: "jsonValue option \<Rightarrow> string option" where
  "asString (Some (JString s)) = Some s"
| "asString v = None"

text \<open>
  The three branches of the \<open>switch\<close> of \<open>UseSpecialCardFromDiscard\<close>: the messages a
  branch sends and the state it leaves. The index guard of ranks 7 and 8 is the
  constant 4, not the length of the hand, so \<open>Cards[idx]\<close> can be out of range and
  panic; \<open>g.Players[playerID]\<close> is nil for an unknown player.
\<close>

definition lookAtOwn :: "string \<Rightarrow> (string \<rightharpoonup> jsonValue) \<Rightarrow> Game \<Rightarrow> panic + message list \<times> Game" where
  "lookAtOwn pid params g =
     (case asNumber (params ''targetIndex'') of
        None \<Rightarrow> Inr ([], g)
      | Some idx \<Rightarrow>
          if idx \<ge> 0 \<and> idx < 4 then
            (case Players g pid of
               None \<Rightarrow> Inl NilDereference
             | Some p \<Rightarrow>
                 if nat idx < length (Cards p)
                 then Inr ([CardRevealed pid None idx (Cards p ! nat idx)], g)
                 else Inl IndexOutOfRange)
          else Inr ([], g))"

definition lookAtOther :: "string \<Rightarrow> (string \<rightharpoonup> jsonValue) \<Rightarrow> Game \<Rightarrow> panic + message list \<times> Game" where
  "lookAtOther pid params g =
     (case asString (params ''targetPlayerID'') of
        None \<Rightarrow> Inr ([], g)
      | Some targetPlayerID \<Rightarrow>
          (case asNumber (params ''targetIndex'') of
             None \<Rightarrow> Inr ([], g)
           | Some idx \<Rightarrow>
               (case Players g targetPlayerID of
                  None \<Rightarrow> Inr ([], g)
                | Some targetPlayer \<Rightarrow>
                    if idx \<ge> 0 \<and> idx < 4 then
                      (if nat idx < length (Cards targetPlayer)
                       then Inr ([CardRevealed pid (Some targetPlayerID) idx
                                    (Cards targetPlayer ! nat idx)], g)
                       else Inl IndexOutOfRange)
                    else Inr ([], g))))"

text \<open>
  The swap of rank 9: \<open>swapAnyTwo\<close> asserts the types of the four parameters and
  \<open>swapCards\<close> is the block inside. Both players are pointers into the same map, so when
  \<open>player1ID = player2ID\<close> the second assignment writes into the hand that the first
  one has already changed: \<open>ps1 player2ID\<close> is read again for that reason.
\<close>

definition swapCards :: "string \<Rightarrow> int \<Rightarrow> string \<Rightarrow> int \<Rightarrow> Game \<Rightarrow> message list \<times> Game" where
  "swapCards player1ID idx1 player2ID idx2 g =
     (case Players g player1ID of
        None \<Rightarrow> ([], g)
      | Some p1 \<Rightarrow>
          if idx1 \<ge> 0 \<and> idx1 < int (length (Cards p1)) then
            (case Players g player2ID of
               None \<Rightarrow> ([], g)
             | Some p2 \<Rightarrow>
                 if idx2 \<ge> 0 \<and> idx2 < int (length (Cards p2)) then
                   (let card1 = Cards p1 ! nat idx1;
                        card2 = Cards p2 ! nat idx2;
                        ps1 = (Players g)(player1ID \<mapsto> p1\<lparr>Cards := (Cards p1)[nat idx1 := card2]\<rparr>);
                        ps2 = (case ps1 player2ID of
                                 None \<Rightarrow> ps1
                               | Some q \<Rightarrow> ps1(player2ID \<mapsto> q\<lparr>Cards := (Cards q)[nat idx2 := card1]\<rparr>))
                    in ([SwapEvent player1ID idx1 card1 player2ID idx2 card2], g\<lparr>Players := ps2\<rparr>))
                 else ([], g))
          else ([], g))"

definition swapAnyTwo :: "(string \<rightharpoonup> jsonValue) \<Rightarrow> Game \<Rightarrow> message list \<times> Game" where
  "swapAnyTwo params g =
     (case asString (params ''player1ID'') of
        None \<Rightarrow> ([], g)
      | Some player1ID \<Rightarrow>
     (case asNumber (params ''card1Index'') of
        None \<Rightarrow> ([], g)
      | Some idx1 \<Rightarrow>
     (case asString (params ''player2ID'') of
        None \<Rightarrow> ([], g)
      | Some player2ID \<Rightarrow>
     (case asNumber (params ''card2Index'') of
        None \<Rightarrow> ([], g)
      | Some idx2 \<Rightarrow> swapCards player1ID idx1 player2ID idx2 g))))"

definition specialEffect ::
  "string \<Rightarrow> string \<Rightarrow> (string \<rightharpoonup> jsonValue) \<Rightarrow> Game \<Rightarrow> panic + message list \<times> Game" where
  "specialEffect pid cardRank params g =
     (if cardRank = ''7'' then lookAtOwn pid params g
      else if cardRank = ''8'' then lookAtOther pid params g
      else if cardRank = ''9'' then Inr (swapAnyTwo params g)
      else Inr ([], g))"

definition UseSpecialCardFromDiscard ::
  "string \<Rightarrow> string \<Rightarrow> (string \<rightharpoonup> jsonValue) \<Rightarrow> Game \<Rightarrow> panic + bool \<times> message list \<times> Game" where
  "UseSpecialCardFromDiscard pid cardRank params g =
     (if CurrentPlayer g \<noteq> pid then Inr (False, [], g)
      else if DiscardPile g = [] then Inr (False, [], g)
      else if Rank (last (DiscardPile g)) \<noteq> cardRank then Inr (False, [], g)
      else if PendingSpecialCard g \<noteq> cardRank then Inr (False, [], g)
      else case specialEffect pid cardRank params g of
        Inl e \<Rightarrow> Inl e
      | Inr (msgs, g1) \<Rightarrow>
          (let g2 = g1\<lparr>PendingSpecialCard := ''''\<rparr>
           in case StackedSpecialCardPlayers g2 of
             [] \<Rightarrow> Inr (True, msgs, g2)
           | stackedPlayerID # rest \<Rightarrow>
               (let g3 = g2\<lparr>StackedSpecialCardPlayers := rest\<rparr>
                in if Players g3 stackedPlayerID \<noteq> None
                   then Inr (True, msgs, g3\<lparr>CurrentPlayer := stackedPlayerID,
                                              PendingSpecialCard := cardRank\<rparr>)
                   else Inr (True, msgs, g3))))"

definition SkipSpecialCard :: "string \<Rightarrow> Game \<Rightarrow> Game" where
  "SkipSpecialCard pid g =
     (if CurrentPlayer g \<noteq> pid then g
      else
        (let g1 = g\<lparr>PendingSpecialCard := ''''\<rparr>
         in case StackedSpecialCardPlayers g1 of
           [] \<Rightarrow> g1
         | stackedPlayerID # rest \<Rightarrow>
             (let g2 = g1\<lparr>StackedSpecialCardPlayers := rest\<rparr>
              in if Players g2 stackedPlayerID \<noteq> None then
                   (let g3 = g2\<lparr>CurrentPlayer := stackedPlayerID\<rparr>
                    in if DiscardPile g3 \<noteq> [] \<and> isSpecial (Rank (last (DiscardPile g3)))
                       then g3\<lparr>PendingSpecialCard := Rank (last (DiscardPile g3))\<rparr>
                       else g3)
                 else g2)))"

subsection \<open>Stacking\<close>

text \<open>
  \<open>StackCard\<close> returns its success flag, its error message and the state.
  \<open>append(Cards[:i], Cards[i+1:]...)\<close> is the hand without position \<open>i\<close>.
\<close>

definition StackCard :: "string \<Rightarrow> int \<Rightarrow> Game \<Rightarrow> bool \<times> string \<times> Game" where
  "StackCard pid cardIndex g =
     (if DiscardPile g = [] then (False, ''No card in discard pile to stack on.'', g)
      else
        (let topCardIndex = int (length (DiscardPile g)) - 1
         in if StackableCardIndex g = - 1 then
              (False, ''Cannot stack on this card. Cards placed via stacking cannot be stacked on.'', g)
            else if StackableCardIndex g \<noteq> topCardIndex then
              (False, ''Cannot stack on this card. Only the most recent card placed via end turn can be stacked on.'', g)
            else case Players g pid of
              None \<Rightarrow> (False, ''Player not found.'', g)
            | Some player \<Rightarrow>
                if cardIndex < 0 \<or> cardIndex \<ge> int (length (Cards player)) then
                  (False, ''Invalid card index.'', g)
                else
                  (let cardToStack = Cards player ! nat cardIndex
                   in if Rank cardToStack = '''' then (False, ''Invalid card. Card has no rank.'', g)
                      else
                        (let topCard = DiscardPile g ! nat topCardIndex
                         in if Rank topCard = '''' then
                              (False, ''Invalid discard pile card. Card has no rank.'', g)
                            else if Rank cardToStack \<noteq> Rank topCard then
                              (case Deck g of
                                 [] \<Rightarrow> (False, ''Card rank does not match. Penalty card added.'', g)
                               | penaltyCard # rest \<Rightarrow>
                                   (False, ''Card rank does not match. Penalty card added.'',
                                    g\<lparr>Deck := rest,
                                      Players := (Players g)(pid \<mapsto>
                                        player\<lparr>Cards := Cards player @ [penaltyCard\<lparr>FaceUp := False\<rparr>]\<rparr>)\<rparr>))
                            else
                              (let queue = StackedSpecialCardPlayers g;
                                   queue' = (if isSpecial (Rank topCard) \<and> pid \<notin> set queue
                                             then queue @ [pid] else queue)
                               in (True, '''',
                                   g\<lparr>DiscardPile := DiscardPile g @ [cardToStack\<lparr>FaceUp := True\<rparr>],
                                     Players := (Players g)(pid \<mapsto>
                                       player\<lparr>Cards := take (nat cardIndex) (Cards player)
                                                        @ drop (nat cardIndex + 1) (Cards player)\<rparr>),
                                     StackedSpecialCardPlayers := queue',
                                     StackableCardIndex := - 1\<rparr>))))))"

subsection \<open>The projection of the state for one viewer\<close>

record PlayerView =
  viewID :: string
  viewName :: string
  viewCards :: "Card list"
  viewScore :: int

record GameState =
  gameID :: string
  players :: "string \<rightharpoonup> PlayerView"
  currentPlayer :: string
  status :: string
  pabloCalled :: bool
  deckSize :: nat
  discardTop :: "Card option"
  drawnCards :: "string \<rightharpoonup> Card"
  pendingSpecialCard :: string
  stackingEnabled :: bool

text \<open>The loop over one hand: \<open>own\<close> is \<open>id == viewerID\<close>, \<open>ended\<close> is \<open>g.Status == "ended"\<close>.\<close>

fun projectCards :: "bool \<Rightarrow> bool \<Rightarrow> Card list \<Rightarrow> Card list" where
  "projectCards own ended [] = []"
| "projectCards own ended (c # cs) =
     (if Rank c \<noteq> '''' \<or> Suit c \<noteq> '''' then
        (if own \<or> FaceUp c \<or> ended
         then \<lparr>Suit = Suit c, Rank = Rank c, FaceUp = (FaceUp c \<or> ended)\<rparr> # projectCards own ended cs
         else \<lparr>Suit = '''', Rank = '''', FaceUp = False\<rparr> # projectCards own ended cs)
      else projectCards own ended cs)"

definition getDiscardTop :: "Card list \<Rightarrow> Card option" where
  "getDiscardTop discardPile = (if discardPile = [] then None else Some (last discardPile))"

definition getGameStateForPlayer :: "string \<Rightarrow> Game \<Rightarrow> GameState" where
  "getGameStateForPlayer viewerID g =
     \<lparr>gameID = GameID g,
      players = (\<lambda>pid. map_option (\<lambda>player.
                   \<lparr>viewID = ID player, viewName = Name player,
                    viewCards = projectCards (pid = viewerID) (Status g = ''ended'') (Cards player),
                    viewScore = Score player\<rparr>) (Players g pid)),
      currentPlayer = CurrentPlayer g,
      status = Status g,
      pabloCalled = PabloCalled g,
      deckSize = length (Deck g),
      discardTop = getDiscardTop (DiscardPile g),
      drawnCards = (case DrawnCards g viewerID of
                      None \<Rightarrow> Map.empty
                    | Some c \<Rightarrow> [viewerID \<mapsto> c]),
      pendingSpecialCard = PendingSpecialCard g,
      stackingEnabled = (DiscardPile g \<noteq> [] \<and> StackableCardIndex g = int (length (DiscardPile g)) - 1)\<rparr>"

section \<open>Observations on a state\<close>

text \<open>A hand slot is empty when its card has no rank, the test \<open>EndRound\<close> scores with.\<close>

definition nonEmptySlots :: "Player \<Rightarrow> nat" where
  "nonEmptySlots p = length (filter (\<lambda>c. Rank c \<noteq> '''') (Cards p))"

definition handsTotal :: "(string \<rightharpoonup> Player) \<Rightarrow> nat" where
  "handsTotal ps = (\<Sum>pid \<in> dom ps. nonEmptySlots (the (ps pid)))"

text \<open>
  The number of cards in play. \<open>cardTotalSpec\<close> counts the pending drawn card as the
  specification does, one if there is any; \<open>cardTotal\<close> counts one for every entry of
  \<open>DrawnCards\<close>, which is a map from players and can hold several.
\<close>

definition cardTotalSpec :: "Game \<Rightarrow> nat" where
  "cardTotalSpec g =
     length (Deck g) + length (DiscardPile g) + handsTotal (Players g)
       + (if DrawnCards g = Map.empty then 0 else 1)"

definition cardTotal :: "Game \<Rightarrow> nat" where
  "cardTotal g =
     length (Deck g) + length (DiscardPile g) + handsTotal (Players g) + card (dom (DrawnCards g))"

definition hand :: "Game \<Rightarrow> string \<Rightarrow> Card list" where
  "hand g pid = (case Players g pid of None \<Rightarrow> [] | Some p \<Rightarrow> Cards p)"

subsection \<open>Reachable states\<close>

text \<open>
  A match in its lobby: created by \<open>NewGame\<close> with a shuffled deck, then joined by
  players.
\<close>

inductive lobby :: "Game \<Rightarrow> bool" where
  lobby_new: "mset deck = mset createDeck \<Longrightarrow> lobby (NewGame gid deck)"
| lobby_add: "lobby g \<Longrightarrow> lobby (snd (AddPlayer pid name g))"

text \<open>
  The states of a match that was started once and is then played by the turn protocol:
  any player may draw, discard, swap, stack, end the turn or call Pablo at any time, and
  a player uses or skips a special card only when holding no drawn card. A call that
  panics leaves the state as it was.
\<close>

inductive played :: "Game \<Rightarrow> bool" where
  p_start: "lobby g \<Longrightarrow> 2 \<le> card (dom (Players g)) \<Longrightarrow> enumerates g ks \<Longrightarrow> enumerates g ks'
              \<Longrightarrow> played (StartGame ks ks' g)"
| p_draw: "played g \<Longrightarrow> played (snd (DrawCard pid g))"
| p_discard: "played g \<Longrightarrow> played (snd (DiscardDrawnCard pid g))"
| p_swap: "played g \<Longrightarrow> SwapCard pid i g = Inr (ok, g') \<Longrightarrow> played g'"
| p_use: "played g \<Longrightarrow> DrawnCards g pid = None
              \<Longrightarrow> UseSpecialCardFromDiscard pid r params g = Inr (ok, msgs, g') \<Longrightarrow> played g'"
| p_skip: "played g \<Longrightarrow> DrawnCards g pid = None \<Longrightarrow> played (SkipSpecialCard pid g)"
| p_endTurn: "played g \<Longrightarrow> enumerates g ks \<Longrightarrow> played (EndTurn ks pid g)"
| p_stack: "played g \<Longrightarrow> played (snd (snd (StackCard pid i g)))"
| p_pablo: "played g \<Longrightarrow> played (CallPablo pid g)"

text \<open>
  The order of a loop over \<open>g.Players\<close> in the running program. The map holds at most
  six keys, since \<open>AddPlayer\<close> refuses a seventh, and no operation deletes one. Go's
  runtime keeps a map of up to eight keys in one bucket whose slots are filled in the
  order of insertion, and a \<open>range\<close> loop walks the bucket from a slot picked at random,
  wrapping around. Such a loop therefore meets the keys in a rotation of the order in
  which the players joined. \<open>seated seats g\<close> holds when \<open>g\<close> is a state of a match
  whose players joined in the order \<open>seats\<close> and whose loops over the map ran through
  rotations of \<open>seats\<close>; a player who joins again under a seat already taken replaces
  the entry of that key and keeps its place. A call that panics leaves the state as it
  was.
\<close>

inductive seated :: "string list \<Rightarrow> Game \<Rightarrow> bool" where
  s_new: "seated [] (NewGame gid deck)"
| s_join: "seated seats g
              \<Longrightarrow> seated (if fst (AddPlayer pid name g) \<and> pid \<notin> set seats then seats @ [pid] else seats)
                    (snd (AddPlayer pid name g))"
| s_start: "seated seats g \<Longrightarrow> seated seats (StartGame (rotate m seats) (rotate n seats) g)"
| s_draw: "seated seats g \<Longrightarrow> seated seats (snd (DrawCard pid g))"
| s_discard: "seated seats g \<Longrightarrow> seated seats (snd (DiscardDrawnCard pid g))"
| s_swap: "seated seats g \<Longrightarrow> SwapCard pid i g = Inr (ok, g') \<Longrightarrow> seated seats g'"
| s_use: "seated seats g \<Longrightarrow> UseSpecialCardFromDiscard pid r params g = Inr (ok, msgs, g')
              \<Longrightarrow> seated seats g'"
| s_skip: "seated seats g \<Longrightarrow> seated seats (SkipSpecialCard pid g)"
| s_endTurn: "seated seats g \<Longrightarrow> seated seats (EndTurn (rotate n seats) pid g)"
| s_stack: "seated seats g \<Longrightarrow> seated seats (snd (snd (StackCard pid i g)))"
| s_pablo: "seated seats g \<Longrightarrow> seated seats (CallPablo pid g)"

definition allRanked :: "Card list \<Rightarrow> bool" where
  "allRanked cs \<longleftrightarrow> (\<forall>c \<in> set cs. Rank c \<noteq> '''')"

text \<open>
  The invariant that carries the conservation of cards through the operations: every
  card in the deck, in a hand or drawn has a rank; only the current player holds a
  drawn card, and is then marked as having drawn; and the cards add up to 52.
\<close>

definition wellFormed :: "Game \<Rightarrow> bool" where
  "wellFormed g \<longleftrightarrow>
     finite (dom (Players g))
     \<and> allRanked (Deck g)
     \<and> (\<forall>pid p. Players g pid = Some p \<longrightarrow> allRanked (Cards p))
     \<and> (\<forall>pid c. DrawnCards g pid = Some c \<longrightarrow>
           pid = CurrentPlayer g \<and> HasDrawnThisTurn g pid \<and> Rank c \<noteq> '''')
     \<and> cardTotal g = 52"

subsection \<open>Example matches\<close>

definition lobby2 :: Game where
  "lobby2 = snd (AddPlayer ''p2'' ''Bob'' (snd (AddPlayer ''p1'' ''Alice'' (NewGame ''m'' createDeck))))"

definition started2 :: Game where
  "started2 = StartGame [''p1'', ''p2''] [''p1'', ''p2''] lobby2"

definition lobby3 :: Game where
  "lobby3 = snd (AddPlayer ''c'' ''Cy'' (snd (AddPlayer ''b'' ''Bo'' (snd (AddPlayer ''a'' ''Al''
              (NewGame ''m'' createDeck))))))"

definition started3 :: Game where
  "started3 = StartGame [''a'', ''b'', ''c''] [''a'', ''b'', ''c''] lobby3"

text \<open>
  A match that ends by the Pablo call: \<open>p1\<close> calls Pablo, draws the nine of hearts,
  discards it, skips its power and ends the turn; \<open>p2\<close> draws, discards and ends the
  turn, which would return to the caller and so ends the round.
\<close>

definition pabloRound :: Game where
  "pabloRound =
     EndTurn [''p1'', ''p2''] ''p2''
       (snd (DiscardDrawnCard ''p2''
         (snd (DrawCard ''p2''
           (EndTurn [''p1'', ''p2''] ''p1''
             (SkipSpecialCard ''p1''
               (snd (DiscardDrawnCard ''p1''
                 (snd (DrawCard ''p1''
                   (CallPablo ''p1'' started2)))))))))))"

definition mkCard :: "string \<Rightarrow> string \<Rightarrow> bool \<Rightarrow> Card" where
  "mkCard r s up = \<lparr>Suit = s, Rank = r, FaceUp = up\<rparr>"

definition player :: "string \<Rightarrow> Card list \<Rightarrow> Player" where
  "player pid cs = \<lparr>ID = pid, Name = pid, Cards = cs, Ready = False, Score = 0\<rparr>"

text \<open>
  A match whose deck is used up: two hands of four, the other 44 cards on the discard
  pile, the top of the pile (the king of spades) open to stacking.
\<close>

definition emptyDeckMatch :: Game where
  "emptyDeckMatch =
     \<lparr>GameID = ''m'',
      Players = [''p1'' \<mapsto> player ''p1'' (take 4 createDeck),
                 ''p2'' \<mapsto> player ''p2'' (take 4 (drop 4 createDeck))],
      Deck = [],
      DiscardPile = map (\<lambda>c. c\<lparr>FaceUp := True\<rparr>) (drop 8 createDeck),
      DrawnCards = Map.empty, HasDrawnThisTurn = (\<lambda>_. False), PendingSpecialCard = '''',
      CurrentPlayer = ''p1'', Status = ''playing'', PabloCalled = False, PabloCaller = '''',
      StackableCardIndex = 43, StackedSpecialCardPlayers = []\<rparr>"

text \<open>
  A match in which \<open>p1\<close> holds a single card, a five, and the top of the discard pile
  is a five open to stacking; and one in which \<open>p1\<close> holds its four dealt cards.
\<close>

definition lastCardMatch :: Game where
  "lastCardMatch =
     \<lparr>GameID = ''m'',
      Players = [''p1'' \<mapsto> player ''p1'' [mkCard ''5'' ''clubs'' False],
                 ''p2'' \<mapsto> player ''p2'' [mkCard ''2'' ''hearts'' False, mkCard ''3'' ''hearts'' False,
                                               mkCard ''4'' ''hearts'' False, mkCard ''6'' ''hearts'' False]],
      Deck = [mkCard ''K'' ''spades'' False, mkCard ''Q'' ''spades'' False],
      DiscardPile = [mkCard ''5'' ''hearts'' True],
      DrawnCards = Map.empty, HasDrawnThisTurn = (\<lambda>_. False), PendingSpecialCard = '''',
      CurrentPlayer = ''p2'', Status = ''playing'', PabloCalled = False, PabloCaller = '''',
      StackableCardIndex = 0, StackedSpecialCardPlayers = []\<rparr>"

definition gridMatch :: Game where
  "gridMatch =
     lastCardMatch\<lparr>Players := [''p1'' \<mapsto> player ''p1'' [mkCard ''5'' ''clubs'' False, mkCard ''9'' ''clubs'' False,
                                                            mkCard ''J'' ''clubs'' False, mkCard ''A'' ''clubs'' False],
                                ''p2'' \<mapsto> player ''p2'' [mkCard ''2'' ''hearts'' False, mkCard ''3'' ''hearts'' False,
                                                            mkCard ''4'' ''hearts'' False, mkCard ''6'' ''hearts'' False]]\<rparr>"

text \<open>
  A match in which \<open>p1\<close> has just discarded a seven and \<open>p2\<close> has stacked a seven on
  it, so that \<open>p2\<close> waits in the queue for the power.
\<close>

definition sevenMatch :: Game where
  "sevenMatch =
     gridMatch\<lparr>DiscardPile := [mkCard ''7'' ''hearts'' True, mkCard ''7'' ''clubs'' True],
               PendingSpecialCard := ''7'', CurrentPlayer := ''p1'', StackableCardIndex := - 1,
               StackedSpecialCardPlayers := [''p2'']\<rparr>"

text \<open>
  A match of five players in which a drawn card is lost. The deck is dealt in the order
  \<open>b, a, c, d, e\<close>, so \<open>a\<close> holds the eight of hearts, and \<open>a\<close> begins. \<open>a\<close> draws the
  eight of diamonds, discards it, skips its power and ends the turn, which passes to
  \<open>b\<close>. Now \<open>a\<close> stacks the eight of hearts and is queued for the power. \<open>b\<close> draws
  and, holding the drawn card, skips: the turn passes to \<open>a\<close>, who skips and ends the
  turn. It is the turn of \<open>b\<close> again, whose has-drawn mark has been reset, and \<open>b\<close>
  draws a second card over the first.
\<close>

definition lobby5 :: Game where
  "lobby5 = snd (AddPlayer ''e'' ''Ed'' (snd (AddPlayer ''d'' ''Di'' (snd (AddPlayer ''c'' ''Cy''
              (snd (AddPlayer ''b'' ''Bo'' (snd (AddPlayer ''a'' ''Al''
                (NewGame ''m'' createDeck))))))))))"

definition seats5 :: "string list" where
  "seats5 = [''a'', ''b'', ''c'', ''d'', ''e'']"

definition started5 :: Game where
  "started5 = StartGame [''b'', ''a'', ''c'', ''d'', ''e''] seats5 lobby5"

definition afterEight :: Game where
  "afterEight = snd (DiscardDrawnCard ''a'' (snd (DrawCard ''a'' started5)))"

definition turnOfB :: Game where
  "turnOfB = EndTurn seats5 ''a'' (SkipSpecialCard ''a'' afterEight)"

definition queuedA :: Game where
  "queuedA = snd (snd (StackCard ''a'' 3 turnOfB))"

definition heldByB :: Game where
  "heldByB = snd (DrawCard ''b'' queuedA)"

definition beforeLostDraw :: Game where
  "beforeLostDraw = EndTurn seats5 ''a'' (SkipSpecialCard ''a'' (SkipSpecialCard ''b'' heldByB))"

definition lostDraw :: Game where
  "lostDraw = snd (DrawCard ''b'' beforeLostDraw)"

text \<open>
  A match of five players in which a hand is shorter than four cards while an eight is
  pending. The deck is dealt in the order of the seats, so \<open>b\<close> holds the eight of
  hearts in position 3, and \<open>a\<close> begins. \<open>a\<close> draws the eight of diamonds and discards
  it, which makes the eight pending for \<open>a\<close>; \<open>b\<close> stacks the eight of hearts on it,
  is queued for the power and keeps three cards.
\<close>

definition eightMatch :: Game where
  "eightMatch =
     snd (snd (StackCard ''b'' 3
       (snd (DiscardDrawnCard ''a'' (snd (DrawCard ''a'' (StartGame seats5 seats5 lobby5)))))))"

subsection \<open>Predicates of the claims\<close>

text \<open>
  What the specification says of the queue of deferred rights after a resolution or a
  skip of the special card of rank \<open>r\<close>: with an empty queue the pending card stays
  cleared; otherwise the head leaves the queue, becomes the current player and the
  pending card is set to \<open>r\<close> again.
\<close>

definition queueAdvanced :: "string \<Rightarrow> Game \<Rightarrow> Game \<Rightarrow> bool" where
  "queueAdvanced r g g' =
     (case StackedSpecialCardPlayers g of
        [] \<Rightarrow> PendingSpecialCard g' = '''' \<and> StackedSpecialCardPlayers g' = []
               \<and> CurrentPlayer g' = CurrentPlayer g
      | s # rest \<Rightarrow> PendingSpecialCard g' = r \<and> StackedSpecialCardPlayers g' = rest
               \<and> CurrentPlayer g' = s)"

text \<open>
  The parameters of a use of rank 7 or 8 that the checks of the source turn away before
  any card is indexed: the target index is missing, is not a number or fails the guard
  \<open>idx >= 0 && idx < 4\<close>, or (rank 8) the target player is missing or not a string. The
  guard compares with the constant 4 and not with the length of the hand.
\<close>

definition failsGuard :: "string \<Rightarrow> (string \<rightharpoonup> jsonValue) \<Rightarrow> bool" where
  "failsGuard r params =
     ((case asNumber (params ''targetIndex'') of None \<Rightarrow> True | Some idx \<Rightarrow> idx < 0 \<or> idx \<ge> 4)
      \<or> (r = ''8'' \<and> asString (params ''targetPlayerID'') = None))"

text \<open>A card is present in a slot when it has a rank or a suit, the test of the projection.\<close>

definition present :: "Card \<Rightarrow> bool" where
  "present c \<longleftrightarrow> Rank c \<noteq> '''' \<or> Suit c \<noteq> ''''"

text \<open>
  \<open>redact viewer g\<close> overwrites what the viewer must not learn while the match is not
  ended: the rank and suit of every face-down card in another player's hand, the drawn
  cards of the other players and the cards of the deck.
\<close>

definition redactCard :: "Card \<Rightarrow> Card" where
  "redactCard c = (if present c \<and> \<not> FaceUp c then \<lparr>Suit = ''?'', Rank = ''?'', FaceUp = False\<rparr> else c)"

definition redact :: "string \<Rightarrow> Game \<Rightarrow> Game" where
  "redact viewer g =
     (if Status g = ''ended'' then g
      else g\<lparr>Players := (\<lambda>pid. if pid = viewer then Players g pid
                               else map_option (\<lambda>p. p\<lparr>Cards := map redactCard (Cards p)\<rparr>) (Players g pid)),
             DrawnCards := (\<lambda>pid. if pid = viewer then DrawnCards g pid else None),
             Deck := map (\<lambda>c. emptyCard) (Deck g)\<rparr>)"

text \<open>The entry after \<open>pid\<close> in the list \<open>ks\<close>, the first entry after the last one.\<close>

definition successor :: "string list \<Rightarrow> string \<Rightarrow> string" where
  "successor ks pid =
     (case indexOf ks pid of None \<Rightarrow> pid | Some i \<Rightarrow> ks ! ((i + 1) mod length ks))"

section \<open>The give-back obligation\<close>

text \<open>
  The tests of the repository (main_test.go) call \<open>StackOpponentCard\<close> and \<open>HandleGiveCard\<close> and reads a field
  \<open>PendingGive\<close> of the game, and the client sends \<open>stackOpponentCard\<close> and
  \<open>giveCardToPlayer\<close>; main.go defines none of them. They are modelled here from the
  specification, over a match that pairs the game of main.go with the obligation.
\<close>

text \<open>
  Modelled from the spec: the field \<open>pendingGive\<close> of the match, an optional
  \<open>{actorID, targetPlayerID, targetSlot}\<close> (section 3), which the \<open>Game\<close> of main.go does
  not have.
\<close>

record PendingGive =
  ActorID :: string
  TargetPlayerID :: string
  TargetIndex :: int

text \<open>
  Modelled from the spec: the match with its obligation, the game of main.go together
  with the missing field.
\<close>

record Match =
  game :: Game
  pendingGive :: "PendingGive option"

text \<open>
  Modelled from the spec: the zero-card trigger of round termination, which the
  specification attaches to a successful stack (section 4.4 and 4.5) and which main.go
  does not have.
\<close>

definition zeroCardWin :: "string list \<Rightarrow> Game \<Rightarrow> bool" where
  "zeroCardWin ks g =
     list_ex (\<lambda>pid. case Players g pid of None \<Rightarrow> False | Some p \<Rightarrow> nonEmptySlots p = 0) ks"

text \<open>
  Modelled from the spec: \<open>stackOpponent(actorID, targetPlayerID, slot)\<close>, the function
  \<open>StackOpponentCard\<close> that is missing from main.go. It requires a non-empty discard
  pile, a stackable pointer equal to the top index of the pile, a valid non-empty slot
  of the target and equal ranks. On success the card moves face-up onto the pile, the
  slot becomes the empty marker, the actor joins the queue if the card stacked onto is
  a 7, 8 or 9 (once), the stackable pointer is cleared and, the target being an
  opponent, \<open>pendingGive\<close> is set; a hand left without a card ends the round. On a rank
  mismatch the actor receives a penalty card from the deck. \<open>ks\<close> lists the players.
\<close>

definition StackOpponentCard :: "string list \<Rightarrow> string \<Rightarrow> string \<Rightarrow> int \<Rightarrow> Match \<Rightarrow> bool \<times> Match" where
  "StackOpponentCard ks actorID targetPlayerID slot m =
     (let g = game m in
      if DiscardPile g = [] then (False, m)
      else if StackableCardIndex g \<noteq> int (length (DiscardPile g)) - 1 then (False, m)
      else case (Players g actorID, Players g targetPlayerID) of
        (Some actor, Some target) \<Rightarrow>
          if slot < 0 \<or> slot \<ge> int (length (Cards target)) then (False, m)
          else
            (let source = Cards target ! nat slot; top = last (DiscardPile g)
             in if Rank source = '''' then (False, m)
                else if Rank source \<noteq> Rank top then
                  (case Deck g of
                     [] \<Rightarrow> (False, m)
                   | penaltyCard # rest \<Rightarrow>
                       (False, m\<lparr>game := g\<lparr>Deck := rest,
                          Players := (Players g)(actorID \<mapsto>
                            actor\<lparr>Cards := Cards actor @ [penaltyCard\<lparr>FaceUp := False\<rparr>]\<rparr>)\<rparr>\<rparr>))
                else
                  (let queue = StackedSpecialCardPlayers g;
                       g1 = g\<lparr>DiscardPile := DiscardPile g @ [source\<lparr>FaceUp := True\<rparr>],
                              Players := (Players g)(targetPlayerID \<mapsto>
                                target\<lparr>Cards := (Cards target)[nat slot := emptyCard]\<rparr>),
                              StackedSpecialCardPlayers :=
                                (if isSpecial (Rank top) \<and> actorID \<notin> set queue
                                 then queue @ [actorID] else queue),
                              StackableCardIndex := - 1\<rparr>;
                       g2 = (if zeroCardWin ks g1 then EndRound g1 else g1)
                   in (True, \<lparr>game = g2,
                              pendingGive = (if targetPlayerID \<noteq> actorID
                                             then Some \<lparr>ActorID = actorID, TargetPlayerID = targetPlayerID,
                                                        TargetIndex = slot\<rparr>
                                             else pendingGive m)\<rparr>)))
      | _ \<Rightarrow> (False, m))"

text \<open>
  Modelled from the spec: \<open>giveCard(actorID, sourceSlot)\<close>, the function \<open>HandleGiveCard\<close>
  that is missing from main.go. It is legal only while \<open>pendingGive.actorID\<close> is the
  actor; it moves the card of the actor's slot, which must hold one, into the target's
  vacated slot face-down, leaves the actor's slot empty and clears \<open>pendingGive\<close>.
\<close>

definition HandleGiveCard :: "string \<Rightarrow> int \<Rightarrow> Match \<Rightarrow> bool \<times> Match" where
  "HandleGiveCard actorID sourceSlot m =
     (case pendingGive m of
        None \<Rightarrow> (False, m)
      | Some pg \<Rightarrow>
          if ActorID pg \<noteq> actorID then (False, m)
          else
            (let g = game m in
             case (Players g actorID, Players g (TargetPlayerID pg)) of
               (Some actor, Some target) \<Rightarrow>
                 if sourceSlot < 0 \<or> sourceSlot \<ge> int (length (Cards actor)) then (False, m)
                 else if TargetIndex pg < 0 \<or> TargetIndex pg \<ge> int (length (Cards target)) then (False, m)
                 else if Rank (Cards actor ! nat sourceSlot) = '''' then (False, m)
                 else
                   (let given = (Cards actor ! nat sourceSlot)\<lparr>FaceUp := False\<rparr>;
                        ps1 = (Players g)(actorID \<mapsto> actor\<lparr>Cards := (Cards actor)[nat sourceSlot := emptyCard]\<rparr>);
                        ps2 = (case ps1 (TargetPlayerID pg) of
                                 None \<Rightarrow> ps1
                               | Some t \<Rightarrow> ps1(TargetPlayerID pg \<mapsto>
                                             t\<lparr>Cards := (Cards t)[nat (TargetIndex pg) := given]\<rparr>))
                    in (True, \<lparr>game = g\<lparr>Players := ps2\<rparr>, pendingGive = None\<rparr>))
             | _ \<Rightarrow> (False, m)))"

text \<open>
  Modelled from the spec: the twelve actions of the action contract (section 6) with
  their fields. main.go dispatches the first ten; \<open>stackOpponent\<close> and \<open>giveCard\<close> are
  the two it lacks. An action that loops over the players map carries the order of
  that loop: \<open>startMatch\<close> the orders of the dealing loop and of the loop that picks
  the first player, \<open>endTurn\<close> and \<open>stackOpponent\<close> the order of their one loop.
\<close>

datatype action =
    Join string
  | StartMatch "string list" "string list"
  | Draw
  | DiscardDrawn
  | SwapDrawn int
  | UseSpecial string "string \<rightharpoonup> jsonValue"
  | Skip
  | Pablo
  | EndTurnOf "string list"
  | StackOwn int
  | StackOpponent "string list" string int
  | GiveCard int

text \<open>Modelled from the spec: the one action that discharges the obligation.\<close>

fun isGive :: "action \<Rightarrow> bool" where
  "isGive (GiveCard s) = True"
| "isGive a = False"

text \<open>
  Modelled from the spec: \<open>pendingGive.actorID == actorID\<close>, the obligation is set and
  names the actor.
\<close>

definition owesCard :: "string \<Rightarrow> Match \<Rightarrow> bool" where
  "owesCard actorID m = (case pendingGive m of None \<Rightarrow> False | Some pg \<Rightarrow> ActorID pg = actorID)"

text \<open>
  Modelled from the spec: the gate of the give-back obligation, absent from main.go:
  while \<open>pendingGive\<close> names the actor, the actor's only legal action is \<open>giveCard\<close>,
  and every other action of the contract is rejected and changes nothing. An action
  that passes the gate runs the operation of main.go that the dispatcher calls for it,
  or one of the two modelled above; a panic rejects the action and leaves the match as
  it was.
\<close>

definition perform :: "string \<Rightarrow> action \<Rightarrow> Match \<Rightarrow> bool \<times> Match" where
  "perform actorID a m =
     (if owesCard actorID m \<and> \<not> isGive a then (False, m)
      else case a of
        Join name \<Rightarrow> (case AddPlayer actorID name (game m) of (ok, g') \<Rightarrow> (ok, m\<lparr>game := g'\<rparr>))
      | StartMatch ks ks' \<Rightarrow> (True, m\<lparr>game := StartGame ks ks' (game m)\<rparr>)
      | Pablo \<Rightarrow> (True, m\<lparr>game := CallPablo actorID (game m)\<rparr>)
      | Draw \<Rightarrow> (case DrawCard actorID (game m) of (ok, g') \<Rightarrow> (ok, m\<lparr>game := g'\<rparr>))
      | DiscardDrawn \<Rightarrow> (case DiscardDrawnCard actorID (game m) of (ok, g') \<Rightarrow> (ok, m\<lparr>game := g'\<rparr>))
      | SwapDrawn i \<Rightarrow>
          (case SwapCard actorID i (game m) of
             Inl _ \<Rightarrow> (False, m)
           | Inr (ok, g') \<Rightarrow> (ok, m\<lparr>game := g'\<rparr>))
      | EndTurnOf ks \<Rightarrow> (True, m\<lparr>game := EndTurn ks actorID (game m)\<rparr>)
      | UseSpecial r params \<Rightarrow>
          (case UseSpecialCardFromDiscard actorID r params (game m) of
             Inl _ \<Rightarrow> (False, m)
           | Inr (ok, _, g') \<Rightarrow> (ok, m\<lparr>game := g'\<rparr>))
      | Skip \<Rightarrow> (True, m\<lparr>game := SkipSpecialCard actorID (game m)\<rparr>)
      | StackOwn i \<Rightarrow> (case StackCard actorID i (game m) of (ok, _, g') \<Rightarrow> (ok, m\<lparr>game := g'\<rparr>))
      | StackOpponent ks t i \<Rightarrow> StackOpponentCard ks actorID t i m
      | GiveCard s \<Rightarrow> HandleGiveCard actorID s m)"

text \<open>
  An example match for the obligation: \<open>gridMatch\<close> with a second player \<open>p2\<close> who
  holds the five of spades in slot 0, and no obligation pending.
\<close>

definition giveMatch :: Match where
  "giveMatch = \<lparr>game = gridMatch\<lparr>Players := (Players gridMatch)(''p2'' \<mapsto>
                    player ''p2'' [mkCard ''5'' ''spades'' False, mkCard ''3'' ''hearts'' False,
                                   mkCard ''4'' ''hearts'' False, mkCard ''6'' ''hearts'' False])\<rparr>,
                pendingGive = None\<rparr>"

section \<open>Starting a match\<close>

lemma replicate4: "replicate 4 x = [x, x, x, x]"
  by (simp add: numeral_eq_Suc)

text \<open>Dealing touches the hands and the deck only.\<close>

lemma dealPlayers_shape:
  "\<exists>ps dk. dealPlayers ks g = g\<lparr>Players := ps, Deck := dk\<rparr> \<and> dom ps = dom (Players g)"
proof (induction ks arbitrary: g)
  case Nil
  have "g = g\<lparr>Players := Players g, Deck := Deck g\<rparr>" by simp
  then show ?case by (metis dealPlayers.simps(1))
next
  case (Cons k ks)
  show ?case
  proof (cases "Players g k")
    case None
    with Cons.IH [of g] show ?thesis by simp
  next
    case (Some p)
    obtain cs d where dl: "dealLoop [0, 1, 2, 3] (replicate 4 emptyCard) (Deck g) = (cs, d)"
      by (cases "dealLoop [0, 1, 2, 3] (replicate 4 emptyCard) (Deck g)")
    let ?g = "g\<lparr>Players := (Players g)(k \<mapsto> p\<lparr>Cards := cs\<rparr>), Deck := d\<rparr>"
    from Some dl have step: "dealPlayers (k # ks) g = dealPlayers ks ?g" by simp
    from Some have d: "dom (Players ?g) = dom (Players g)" by auto
    from Cons.IH [of ?g] obtain ps dk where
      eq: "dealPlayers ks ?g = ?g\<lparr>Players := ps, Deck := dk\<rparr>" and dp: "dom ps = dom (Players ?g)"
      by blast
    have "?g\<lparr>Players := ps, Deck := dk\<rparr> = g\<lparr>Players := ps, Deck := dk\<rparr>" by simp
    with step eq have "dealPlayers (k # ks) g = g\<lparr>Players := ps, Deck := dk\<rparr>" by simp
    moreover from dp d have "dom ps = dom (Players g)" by simp
    ultimately show ?thesis by blast
  qed
qed

lemma dealPlayers_frame:
  "dom (Players (dealPlayers ks g)) = dom (Players g)
   \<and> DiscardPile (dealPlayers ks g) = DiscardPile g
   \<and> DrawnCards (dealPlayers ks g) = DrawnCards g
   \<and> HasDrawnThisTurn (dealPlayers ks g) = HasDrawnThisTurn g
   \<and> PendingSpecialCard (dealPlayers ks g) = PendingSpecialCard g
   \<and> CurrentPlayer (dealPlayers ks g) = CurrentPlayer g
   \<and> Status (dealPlayers ks g) = Status g
   \<and> PabloCalled (dealPlayers ks g) = PabloCalled g
   \<and> PabloCaller (dealPlayers ks g) = PabloCaller g
   \<and> StackableCardIndex (dealPlayers ks g) = StackableCardIndex g
   \<and> StackedSpecialCardPlayers (dealPlayers ks g) = StackedSpecialCardPlayers g"
proof -
  from dealPlayers_shape [of ks g] obtain ps dk where
    "dealPlayers ks g = g\<lparr>Players := ps, Deck := dk\<rparr>" and "dom ps = dom (Players g)"
    by blast
  then show ?thesis by simp
qed

lemma StartGame_frame:
  assumes "2 \<le> card (dom (Players g))"
  shows "dom (Players (StartGame ks ks' g)) = dom (Players g)
   \<and> DiscardPile (StartGame ks ks' g) = DiscardPile g
   \<and> DrawnCards (StartGame ks ks' g) = DrawnCards g
   \<and> PendingSpecialCard (StartGame ks ks' g) = PendingSpecialCard g
   \<and> CurrentPlayer (StartGame ks ks' g) = (case ks' of [] \<Rightarrow> [] | k # rest \<Rightarrow> k)
   \<and> Status (StartGame ks ks' g) = ''playing''
   \<and> PabloCalled (StartGame ks ks' g) = PabloCalled g
   \<and> StackedSpecialCardPlayers (StartGame ks ks' g) = StackedSpecialCardPlayers g"
  using assms by (simp add: StartGame_def dealPlayers_frame)

lemma AddPlayer_frame:
  "Deck (snd (AddPlayer pid name g)) = Deck g
   \<and> DiscardPile (snd (AddPlayer pid name g)) = DiscardPile g
   \<and> DrawnCards (snd (AddPlayer pid name g)) = DrawnCards g
   \<and> Status (snd (AddPlayer pid name g)) = Status g
   \<and> PabloCalled (snd (AddPlayer pid name g)) = PabloCalled g
   \<and> CurrentPlayer (snd (AddPlayer pid name g)) = CurrentPlayer g
   \<and> PendingSpecialCard (snd (AddPlayer pid name g)) = PendingSpecialCard g
   \<and> StackedSpecialCardPlayers (snd (AddPlayer pid name g)) = StackedSpecialCardPlayers g"
  by (simp add: AddPlayer_def)

text \<open>The example matches: who is seated and how they start.\<close>

lemma lobby2_facts:
  "dom (Players lobby2) = {''p1'', ''p2''}" "Deck lobby2 = createDeck" "DiscardPile lobby2 = []"
  "DrawnCards lobby2 = Map.empty" "Status lobby2 = ''waiting''" "\<not> PabloCalled lobby2"
  by (auto simp add: lobby2_def AddPlayer_def NewGame_def)

lemma lobby3_facts:
  "dom (Players lobby3) = {''a'', ''b'', ''c''}" "Deck lobby3 = createDeck" "DiscardPile lobby3 = []"
  "DrawnCards lobby3 = Map.empty" "Status lobby3 = ''waiting''" "\<not> PabloCalled lobby3"
  by (auto simp add: lobby3_def AddPlayer_def NewGame_def)

lemma started3_facts:
  "dom (Players started3) = {''a'', ''b'', ''c''}" "DiscardPile started3 = []"
  "DrawnCards started3 = Map.empty" "CurrentPlayer started3 = ''a''" "\<not> PabloCalled started3"
  "Status started3 = ''playing''"
proof -
  have "2 \<le> card (dom (Players lobby3))"
    by (simp add: lobby3_facts)
  from StartGame_frame [OF this, of "[''a'', ''b'', ''c'']" "[''a'', ''b'', ''c'']"]
  show "dom (Players started3) = {''a'', ''b'', ''c''}" "DiscardPile started3 = []"
    "DrawnCards started3 = Map.empty" "CurrentPlayer started3 = ''a''" "\<not> PabloCalled started3"
    "Status started3 = ''playing''"
    unfolding started3_def by (simp_all add: lobby3_facts)
qed

section \<open>Stacking\<close>

lemma nth_top: "xs \<noteq> [] \<Longrightarrow> xs ! nat (int (length xs) - 1) = last xs"
  by (simp add: last_conv_nth nat_diff_distrib')

lemma StackCard_Status: "Status (snd (snd (StackCard pid i g))) = Status g"
  by (simp add: StackCard_def Let_def split: option.splits list.splits)

text \<open>
  What a successful stack does to the hand: position \<open>i\<close> is cut out of the list, so
  the hand is one shorter and every later card moves one position down.
\<close>

lemma StackCard_success:
  assumes "StackCard pid i g = (True, msg, g')"
  shows "\<exists>p. Players g pid = Some p \<and> 0 \<le> i \<and> i < int (length (Cards p))
           \<and> hand g' pid = take (nat i) (Cards p) @ drop (nat i + 1) (Cards p)
           \<and> length (hand g' pid) + 1 = length (Cards p)
           \<and> DiscardPile g' = DiscardPile g @ [(Cards p ! nat i)\<lparr>FaceUp := True\<rparr>]"
  using assms
  by (auto simp add: StackCard_def Let_def hand_def split: if_splits option.splits list.splits)

text \<open>
  Claim C4 (zero-card win). The claim: a successful stack that leaves a player without
  any card ends the round at once. \<open>StackCard\<close> has no such check: in \<open>lastCardMatch\<close>
  player \<open>p1\<close> stacks its only card, the five of clubs, on the five of hearts; the stack
  succeeds, the hand of \<open>p1\<close> is empty and the status is still \<open>playing\<close>.
\<close>

theorem zeroCardStack_keeps_playing:
  "fst (StackCard ''p1'' 0 lastCardMatch)
   \<and> hand (snd (snd (StackCard ''p1'' 0 lastCardMatch))) ''p1'' = []
   \<and> Status (snd (snd (StackCard ''p1'' 0 lastCardMatch))) = ''playing''"
  by (simp add: StackCard_def lastCardMatch_def player_def mkCard_def hand_def isSpecial_def)

text \<open>
  Claim C5 (failed-stack penalty), as the code has it. A stack attempt that passes every
  check but the equality of ranks returns false with the penalty message and leaves the
  discard pile and the stackable pointer as they were. If the deck is not empty, its
  front card goes face-down to the end of the actor's hand, which raises the number of
  non-empty slots by one (the card having a rank); if the deck is empty there is no
  penalty and the state does not change at all.
\<close>

theorem failedStack_penalty:
  assumes "DiscardPile g \<noteq> []"
    and "StackableCardIndex g = int (length (DiscardPile g)) - 1"
    and "Players g pid = Some p"
    and "0 \<le> i" and "i < int (length (Cards p))"
    and "Rank (Cards p ! nat i) \<noteq> ''''"
    and "Rank (last (DiscardPile g)) \<noteq> ''''"
    and "Rank (Cards p ! nat i) \<noteq> Rank (last (DiscardPile g))"
  shows "\<exists>g'. StackCard pid i g = (False, ''Card rank does not match. Penalty card added.'', g')
           \<and> DiscardPile g' = DiscardPile g
           \<and> StackableCardIndex g' = StackableCardIndex g
           \<and> (case Deck g of
                 [] \<Rightarrow> g' = g
               | c # rest \<Rightarrow> Deck g' = rest
                    \<and> hand g' pid = Cards p @ [c\<lparr>FaceUp := False\<rparr>]
                    \<and> (Rank c \<noteq> '''' \<longrightarrow>
                          nonEmptySlots (the (Players g' pid)) = nonEmptySlots p + 1))"
proof -
  from assms(1) have top: "DiscardPile g ! nat (int (length (DiscardPile g)) - 1) = last (DiscardPile g)"
    by (rule nth_top)
  from assms(1) have nz: "int (length (DiscardPile g)) - 1 \<noteq> - 1"
    by simp
  show ?thesis
    using assms top nz
    by (cases "Deck g") (simp_all add: StackCard_def Let_def hand_def nonEmptySlots_def)
qed

text \<open>
  The theorem at work: in \<open>gridMatch\<close> player \<open>p1\<close> offers the nine of clubs on the five
  of hearts and receives the king of spades from the deck as a fifth card.
\<close>

theorem failedStack_penalty_witness:
  "DiscardPile gridMatch \<noteq> []
   \<and> StackableCardIndex gridMatch = int (length (DiscardPile gridMatch)) - 1
   \<and> Rank (hand gridMatch ''p1'' ! 1) \<noteq> Rank (last (DiscardPile gridMatch))
   \<and> (\<exists>g'. StackCard ''p1'' 1 gridMatch = (False, ''Card rank does not match. Penalty card added.'', g')
          \<and> DiscardPile g' = DiscardPile gridMatch
          \<and> StackableCardIndex g' = StackableCardIndex gridMatch
          \<and> Deck g' = [mkCard ''Q'' ''spades'' False]
          \<and> nonEmptySlots (the (Players g' ''p1'')) = 5)"
proof -
  let ?p = "player ''p1'' [mkCard ''5'' ''clubs'' False, mkCard ''9'' ''clubs'' False,
                           mkCard ''J'' ''clubs'' False, mkCard ''A'' ''clubs'' False]"
  have h1: "DiscardPile gridMatch \<noteq> []"
    by (simp add: gridMatch_def lastCardMatch_def)
  have h2: "StackableCardIndex gridMatch = int (length (DiscardPile gridMatch)) - 1"
    by (simp add: gridMatch_def lastCardMatch_def)
  have h3: "Players gridMatch ''p1'' = Some ?p"
    by (simp add: gridMatch_def lastCardMatch_def)
  have h4: "(0::int) \<le> 1" by simp
  have h5: "1 < int (length (Cards ?p))" by (simp add: player_def)
  have h6: "Rank (Cards ?p ! nat 1) \<noteq> ''''" by (simp add: player_def mkCard_def)
  have h7: "Rank (last (DiscardPile gridMatch)) \<noteq> ''''"
    by (simp add: gridMatch_def lastCardMatch_def mkCard_def)
  have h8: "Rank (Cards ?p ! nat 1) \<noteq> Rank (last (DiscardPile gridMatch))"
    by (simp add: gridMatch_def lastCardMatch_def player_def mkCard_def)
  have dk: "Deck gridMatch = [mkCard ''K'' ''spades'' False, mkCard ''Q'' ''spades'' False]"
    by (simp add: gridMatch_def lastCardMatch_def)
  have ne: "nonEmptySlots ?p = 4" "Rank (mkCard ''K'' ''spades'' False) \<noteq> ''''"
    by (simp_all add: nonEmptySlots_def player_def mkCard_def)
  have h8': "Rank (hand gridMatch ''p1'' ! 1) \<noteq> Rank (last (DiscardPile gridMatch))"
    using h8 h3 by (simp add: hand_def)
  from failedStack_penalty [OF h1 h2 h3 h4 h5 h6 h7 h8]
  obtain g' where
    "StackCard ''p1'' 1 gridMatch = (False, ''Card rank does not match. Penalty card added.'', g')"
    "DiscardPile g' = DiscardPile gridMatch"
    "StackableCardIndex g' = StackableCardIndex gridMatch"
    "Deck g' = [mkCard ''Q'' ''spades'' False]"
    "nonEmptySlots (the (Players g' ''p1'')) = 5"
    using dk ne by auto
  with h1 h2 h8' show ?thesis by blast
qed

text \<open>
  Against claim C5 as stated: in \<open>emptyDeckMatch\<close> the deck is used up. Player \<open>p1\<close>
  offers the ace of hearts on the king of spades; the attempt is rejected for the rank
  mismatch and the state, and with it the hand of \<open>p1\<close>, is what it was.
\<close>

theorem failedStack_emptyDeck_counterexample:
  "StackCard ''p1'' 0 emptyDeckMatch
     = (False, ''Card rank does not match. Penalty card added.'', emptyDeckMatch)
   \<and> nonEmptySlots (the (Players (snd (snd (StackCard ''p1'' 0 emptyDeckMatch))) ''p1''))
       \<noteq> nonEmptySlots (the (Players emptyDeckMatch ''p1'')) + 1"
proof -
  have "StackCard ''p1'' 0 emptyDeckMatch
          = (False, ''Card rank does not match. Penalty card added.'', emptyDeckMatch)"
    by (simp add: StackCard_def emptyDeckMatch_def player_def createDeck_def suits_def ranks_def)
  then show ?thesis by simp
qed

text \<open>
  Claim C7 (sparse hand). The claim: a successful stack leaves an empty marker at the
  position of the card and the hand keeps its length. \<open>StackCard\<close> deletes the position
  instead: in \<open>gridMatch\<close> player \<open>p1\<close> stacks the five of clubs from position 0; the
  hand has three cards afterwards and position 0 holds the nine of clubs, which was at
  position 1.
\<close>

theorem stack_deletes_position:
  "fst (StackCard ''p1'' 0 gridMatch)
   \<and> length (hand gridMatch ''p1'') = 4
   \<and> hand (snd (snd (StackCard ''p1'' 0 gridMatch))) ''p1''
       = [mkCard ''9'' ''clubs'' False, mkCard ''J'' ''clubs'' False, mkCard ''A'' ''clubs'' False]"
  by (simp add: StackCard_def gridMatch_def lastCardMatch_def player_def mkCard_def hand_def
      isSpecial_def)

section \<open>The special cards and the queue of deferred rights\<close>

lemma specialEffect_malformed:
  assumes "r = ''7'' \<or> r = ''8''" and "failsGuard r params"
  shows "specialEffect pid r params g = Inr ([], g)"
  using assms
  by (auto simp add: specialEffect_def lookAtOwn_def lookAtOther_def failsGuard_def
      split: option.splits)

text \<open>Ranks 7 and 8 only look: they send a message and leave the state alone.\<close>

lemma specialEffect_peek:
  assumes "specialEffect pid r params g = Inr (msgs, g1)" and "r \<noteq> ''9''"
  shows "g1 = g"
  using assms
  by (auto simp add: specialEffect_def lookAtOwn_def lookAtOther_def split: option.splits if_splits)

lemma swapAnyTwo_frame:
  "snd (swapAnyTwo params g) = g\<lparr>Players := Players (snd (swapAnyTwo params g))\<rparr>
   \<and> dom (Players (snd (swapAnyTwo params g))) = dom (Players g)"
  by (auto simp add: swapAnyTwo_def swapCards_def Let_def insert_absorb domI split: option.splits)

lemma specialEffect_frame:
  assumes "specialEffect pid r params g = Inr (msgs, g1)"
  shows "g1 = g\<lparr>Players := Players g1\<rparr> \<and> dom (Players g1) = dom (Players g)"
proof (cases "r = ''9''")
  case False
  with assms have "g1 = g" by (rule specialEffect_peek)
  then show ?thesis by simp
next
  case True
  with assms have "g1 = snd (swapAnyTwo params g)"
    by (simp add: specialEffect_def)
  with swapAnyTwo_frame [of params g] show ?thesis by simp
qed

text \<open>Only the two looks can panic; the swap of rank 9 checks both indices against the hands.\<close>

lemma specialEffect_panic:
  assumes "specialEffect pid r params g = Inl e"
  shows "r = ''7'' \<or> r = ''8''"
  using assms by (auto simp add: specialEffect_def split: if_splits)

text \<open>
  An accepted use whose effect does not panic: the state after it, with the queue of
  deferred rights advanced.
\<close>

lemma Use_result:
  assumes "CurrentPlayer g = pid" "DiscardPile g \<noteq> []" "Rank (last (DiscardPile g)) = r"
    "PendingSpecialCard g = r" "set (StackedSpecialCardPlayers g) \<subseteq> dom (Players g)"
    "specialEffect pid r params g = Inr (msgs, g1)"
  shows "UseSpecialCardFromDiscard pid r params g =
           Inr (True, msgs,
                case StackedSpecialCardPlayers g of
                  [] \<Rightarrow> g1\<lparr>PendingSpecialCard := ''''\<rparr>
                | s # rest \<Rightarrow> g1\<lparr>PendingSpecialCard := r, CurrentPlayer := s,
                                  StackedSpecialCardPlayers := rest\<rparr>)"
proof -
  from specialEffect_frame [OF assms(6)] have
    g1: "g1 = g\<lparr>Players := Players g1\<rparr>" and d: "dom (Players g1) = dom (Players g)" by simp_all
  have q: "StackedSpecialCardPlayers g1 = StackedSpecialCardPlayers g"
    by (subst g1) simp
  show ?thesis
  proof (cases "StackedSpecialCardPlayers g")
    case Nil
    with assms q show ?thesis
      by (simp add: UseSpecialCardFromDiscard_def)
  next
    case (Cons s rest)
    with assms(5) d have "s \<in> dom (Players g1)" by simp
    then obtain p where "Players g1 s = Some p" by blast
    with Cons assms q show ?thesis
      by (simp add: UseSpecialCardFromDiscard_def)
  qed
qed

lemma Use_panics:
  assumes "CurrentPlayer g = pid" "DiscardPile g \<noteq> []" "Rank (last (DiscardPile g)) = r"
    "PendingSpecialCard g = r" "specialEffect pid r params g = Inl e"
  shows "UseSpecialCardFromDiscard pid r params g = Inl e"
  using assms by (simp add: UseSpecialCardFromDiscard_def)

lemma Use_queueAdvanced:
  assumes "CurrentPlayer g = pid" "DiscardPile g \<noteq> []" "Rank (last (DiscardPile g)) = r"
    "PendingSpecialCard g = r" "set (StackedSpecialCardPlayers g) \<subseteq> dom (Players g)"
    "UseSpecialCardFromDiscard pid r params g = Inr (ok, msgs, g')"
  shows "ok \<and> queueAdvanced r g g'"
proof (cases "specialEffect pid r params g")
  case (Inl e)
  from Use_panics [OF assms(1-4) Inl] assms(6) show ?thesis by simp
next
  case (Inr res)
  obtain ms g1 where res: "res = (ms, g1)" by (cases res)
  from specialEffect_frame [of pid r params g ms g1] Inr res
  have g1: "g1 = g\<lparr>Players := Players g1\<rparr>" by simp
  have f: "CurrentPlayer g1 = CurrentPlayer g"
    "StackedSpecialCardPlayers g1 = StackedSpecialCardPlayers g"
    by (subst g1, simp)+
  from Use_result [OF assms(1-5), of params ms g1] Inr res assms(6) f show ?thesis
    by (auto simp add: queueAdvanced_def split: list.splits)
qed

lemma Skip_queueAdvanced:
  assumes "CurrentPlayer g = pid" "DiscardPile g \<noteq> []" "Rank (last (DiscardPile g)) = r"
    "isSpecial r" "set (StackedSpecialCardPlayers g) \<subseteq> dom (Players g)"
  shows "queueAdvanced r g (SkipSpecialCard pid g)"
proof (cases "StackedSpecialCardPlayers g")
  case Nil
  with assms show ?thesis
    by (simp add: SkipSpecialCard_def queueAdvanced_def)
next
  case (Cons s rest)
  with assms(5) have "s \<in> dom (Players g)" by simp
  then obtain p where "Players g s = Some p" by blast
  with Cons assms show ?thesis
    by (simp add: SkipSpecialCard_def queueAdvanced_def)
qed

text \<open>
  Claim C8 (deferred special-rights queue). The current player \<open>pid\<close> faces a pending
  special card of rank \<open>r\<close> on top of the discard pile, and every queued player is
  seated. A use of the card either panics, which only the looks of rank 7 and 8 can do,
  or returns true; after the use, and after a skip, the pending card is cleared if the
  queue was empty, and otherwise the head has left the queue, is the current player and
  the pending card is \<open>r\<close> again.
\<close>

theorem deferred_queue:
  assumes "CurrentPlayer g = pid"
    and "DiscardPile g \<noteq> []" and "Rank (last (DiscardPile g)) = r"
    and "PendingSpecialCard g = r" and "isSpecial r"
    and "set (StackedSpecialCardPlayers g) \<subseteq> dom (Players g)"
  shows "(case UseSpecialCardFromDiscard pid r params g of
            Inl e \<Rightarrow> r \<noteq> ''9''
          | Inr (ok, msgs, g') \<Rightarrow> ok \<and> queueAdvanced r g g')
         \<and> queueAdvanced r g (SkipSpecialCard pid g)"
proof
  show "case UseSpecialCardFromDiscard pid r params g of
          Inl e \<Rightarrow> r \<noteq> ''9''
        | Inr (ok, msgs, g') \<Rightarrow> ok \<and> queueAdvanced r g g'"
  proof (cases "UseSpecialCardFromDiscard pid r params g")
    case (Inl e)
    have "r \<noteq> ''9''"
    proof (cases "specialEffect pid r params g")
      case (Inl e')
      from specialEffect_panic [OF this] show ?thesis by auto
    next
      case (Inr res)
      obtain ms g1 where "res = (ms, g1)" by (cases res)
      with Inr Use_result [OF assms(1-4) assms(6), of params ms g1] Inl show ?thesis by simp
    qed
    with Inl show ?thesis by simp
  next
    case (Inr res)
    obtain ok msgs g' where "res = (ok, msgs, g')" by (cases res)
    with Inr Use_queueAdvanced [OF assms(1-4) assms(6), of params ok msgs g'] show ?thesis
      by simp
  qed
next
  from assms show "queueAdvanced r g (SkipSpecialCard pid g)"
    by (intro Skip_queueAdvanced) simp_all
qed

text \<open>
  The theorem at work: in \<open>sevenMatch\<close> player \<open>p1\<close> has a seven pending and \<open>p2\<close> is
  queued. Whether \<open>p1\<close> looks at its card 0 or skips, \<open>p2\<close> becomes the current player
  with the seven pending again and the queue is empty.
\<close>

theorem deferred_queue_witness:
  "CurrentPlayer sevenMatch = ''p1''
   \<and> DiscardPile sevenMatch \<noteq> [] \<and> Rank (last (DiscardPile sevenMatch)) = ''7''
   \<and> PendingSpecialCard sevenMatch = ''7'' \<and> isSpecial ''7''
   \<and> StackedSpecialCardPlayers sevenMatch = [''p2'']
   \<and> (\<exists>msgs g'. UseSpecialCardFromDiscard ''p1'' ''7'' [''targetIndex'' \<mapsto> JNumber 0] sevenMatch
                    = Inr (True, msgs, g')
          \<and> PendingSpecialCard g' = ''7'' \<and> CurrentPlayer g' = ''p2''
          \<and> StackedSpecialCardPlayers g' = [])
   \<and> PendingSpecialCard (SkipSpecialCard ''p1'' sevenMatch) = ''7''
   \<and> CurrentPlayer (SkipSpecialCard ''p1'' sevenMatch) = ''p2''
   \<and> StackedSpecialCardPlayers (SkipSpecialCard ''p1'' sevenMatch) = []"
proof -
  let ?params = "[''targetIndex'' \<mapsto> JNumber 0]"
  have h1: "CurrentPlayer sevenMatch = ''p1''"
    and h2: "DiscardPile sevenMatch \<noteq> []"
    and h3: "Rank (last (DiscardPile sevenMatch)) = ''7''"
    and h4: "PendingSpecialCard sevenMatch = ''7''"
    and q: "StackedSpecialCardPlayers sevenMatch = [''p2'']"
    by (simp_all add: sevenMatch_def gridMatch_def lastCardMatch_def mkCard_def)
  have h5: "isSpecial ''7''" by (simp add: isSpecial_def)
  have h6: "set (StackedSpecialCardPlayers sevenMatch) \<subseteq> dom (Players sevenMatch)"
    by (simp add: sevenMatch_def gridMatch_def lastCardMatch_def)
  have eff: "\<exists>msgs. specialEffect ''p1'' ''7'' ?params sevenMatch = Inr (msgs, sevenMatch)"
    by (simp add: specialEffect_def lookAtOwn_def sevenMatch_def gridMatch_def lastCardMatch_def
        player_def)
  then obtain ms where "specialEffect ''p1'' ''7'' ?params sevenMatch = Inr (ms, sevenMatch)" ..
  from Use_result [OF h1 h2 h3 h4 h6 this] q
  obtain g' where use: "UseSpecialCardFromDiscard ''p1'' ''7'' ?params sevenMatch = Inr (True, ms, g')"
    by simp
  from deferred_queue [OF h1 h2 h3 h4 h5 h6, of ?params] use q
  have "queueAdvanced ''7'' sevenMatch g'"
    and "queueAdvanced ''7'' sevenMatch (SkipSpecialCard ''p1'' sevenMatch)"
    by simp_all
  with q have "PendingSpecialCard g' = ''7'' \<and> CurrentPlayer g' = ''p2''
                 \<and> StackedSpecialCardPlayers g' = []"
    and "PendingSpecialCard (SkipSpecialCard ''p1'' sevenMatch) = ''7''
           \<and> CurrentPlayer (SkipSpecialCard ''p1'' sevenMatch) = ''p2''
           \<and> StackedSpecialCardPlayers (SkipSpecialCard ''p1'' sevenMatch) = []"
    by (simp_all add: queueAdvanced_def)
  with h1 h2 h3 h4 h5 q use show ?thesis by blast
qed

subsection \<open>Parameters that name no card\<close>

text \<open>
  What the checks of the source achieve. The current player \<open>pid\<close> has a pending
  special card of rank 7 or 8 on top of the discard pile and sends parameters that the
  checks turn away. The use returns true without sending any message, advances the
  queue of deferred rights, leaves players, deck, discard pile and drawn cards as they
  were, and ends in the very state that every other returning use of that card ends in.
\<close>

lemma guarded_use_succeeds:
  assumes "CurrentPlayer g = pid"
    and "DiscardPile g \<noteq> []" and "Rank (last (DiscardPile g)) = r"
    and "PendingSpecialCard g = r" and "r = ''7'' \<or> r = ''8''"
    and "set (StackedSpecialCardPlayers g) \<subseteq> dom (Players g)"
    and "failsGuard r params"
  shows "\<exists>g'. UseSpecialCardFromDiscard pid r params g = Inr (True, [], g')
           \<and> queueAdvanced r g g'
           \<and> Players g' = Players g \<and> Deck g' = Deck g
           \<and> DiscardPile g' = DiscardPile g \<and> DrawnCards g' = DrawnCards g
           \<and> (\<forall>params' ok msgs g''.
                 UseSpecialCardFromDiscard pid r params' g = Inr (ok, msgs, g'') \<longrightarrow> ok \<and> g'' = g')"
proof -
  let ?G = "case StackedSpecialCardPlayers g of
              [] \<Rightarrow> g\<lparr>PendingSpecialCard := ''''\<rparr>
            | s # rest \<Rightarrow> g\<lparr>PendingSpecialCard := r, CurrentPlayer := s,
                              StackedSpecialCardPlayers := rest\<rparr>"
  from assms(5) have r9: "r \<noteq> ''9''" by auto
  from specialEffect_malformed [OF assms(5) assms(7)]
  have eff: "specialEffect pid r params g = Inr ([], g)" .
  from Use_result [OF assms(1-4) assms(6) eff]
  have use: "UseSpecialCardFromDiscard pid r params g = Inr (True, [], ?G)" .
  from Use_queueAdvanced [OF assms(1-4) assms(6) use]
  have adv: "queueAdvanced r g ?G" by simp
  have frame: "Players ?G = Players g \<and> Deck ?G = Deck g
                 \<and> DiscardPile ?G = DiscardPile g \<and> DrawnCards ?G = DrawnCards g"
    by (simp split: list.splits)
  have same: "ok \<and> g'' = ?G"
    if other: "UseSpecialCardFromDiscard pid r params' g = Inr (ok, msgs, g'')"
    for params' ok msgs g''
  proof (cases "specialEffect pid r params' g")
    case (Inl e)
    from Use_panics [OF assms(1-4) Inl] other show ?thesis by simp
  next
    case (Inr res)
    obtain ms g1 where res: "res = (ms, g1)" by (cases res)
    with Inr have e: "specialEffect pid r params' g = Inr (ms, g1)" by simp
    from specialEffect_peek [OF e r9] e have e': "specialEffect pid r params' g = Inr (ms, g)"
      by simp
    from Use_result [OF assms(1-4) assms(6) e'] other show ?thesis by simp
  qed
  from use adv frame same show ?thesis by blast
qed

text \<open>
  The same checks at work: in \<open>sevenMatch\<close> player \<open>p1\<close> uses the seven with the target
  index 9. Nothing is revealed, the call returns true and \<open>p2\<close>, who was queued,
  becomes the current player with the seven pending again.
\<close>

lemma guarded_use_example:
  "failsGuard ''7'' [''targetIndex'' \<mapsto> JNumber 9]
   \<and> (\<exists>g'. UseSpecialCardFromDiscard ''p1'' ''7'' [''targetIndex'' \<mapsto> JNumber 9] sevenMatch
               = Inr (True, [], g')
          \<and> PendingSpecialCard g' = ''7'' \<and> CurrentPlayer g' = ''p2''
          \<and> StackedSpecialCardPlayers g' = []
          \<and> Players g' = Players sevenMatch)"
proof -
  let ?params = "[''targetIndex'' \<mapsto> JNumber 9]"
  have h1: "CurrentPlayer sevenMatch = ''p1''"
    and h2: "DiscardPile sevenMatch \<noteq> []"
    and h3: "Rank (last (DiscardPile sevenMatch)) = ''7''"
    and h4: "PendingSpecialCard sevenMatch = ''7''"
    and q: "StackedSpecialCardPlayers sevenMatch = [''p2'']"
    by (simp_all add: sevenMatch_def gridMatch_def lastCardMatch_def mkCard_def)
  have h5: "''7'' = ''7'' \<or> ''7'' = ''8''" by simp
  have h6: "set (StackedSpecialCardPlayers sevenMatch) \<subseteq> dom (Players sevenMatch)"
    by (simp add: sevenMatch_def gridMatch_def lastCardMatch_def)
  have h7: "failsGuard ''7'' ?params"
    by (simp add: failsGuard_def)
  from guarded_use_succeeds [OF h1 h2 h3 h4 h5 h6 h7]
  obtain g' where use: "UseSpecialCardFromDiscard ''p1'' ''7'' ?params sevenMatch = Inr (True, [], g')"
    and adv: "queueAdvanced ''7'' sevenMatch g'"
    and ps: "Players g' = Players sevenMatch"
    by blast
  from adv q have "PendingSpecialCard g' = ''7'' \<and> CurrentPlayer g' = ''p2''
                     \<and> StackedSpecialCardPlayers g' = []"
    by (simp add: queueAdvanced_def)
  with h7 use ps show ?thesis by blast
qed

subsection \<open>An index inside the guard and beyond the hand\<close>

text \<open>
  The example \<open>eightMatch\<close>: it is a state of play, the eight is pending for \<open>a\<close>, and
  \<open>b\<close> is queued and holds three cards.
\<close>

lemma lobby5_facts:
  "dom (Players lobby5) = {''a'', ''b'', ''c'', ''d'', ''e''}" "lobby lobby5"
proof -
  show "dom (Players lobby5) = {''a'', ''b'', ''c'', ''d'', ''e''}"
    by (auto simp add: lobby5_def AddPlayer_def NewGame_def)
  have "lobby (NewGame ''m'' createDeck)" by (rule lobby_new) simp
  then show "lobby lobby5" unfolding lobby5_def by (intro lobby_add)
qed

lemma eightMatch_played: "played eightMatch"
proof -
  have two: "2 \<le> card (dom (Players lobby5))" by (simp add: lobby5_facts)
  have en: "enumerates lobby5 seats5"
    by (auto simp add: enumerates_def seats5_def lobby5_facts)
  from p_start [OF lobby5_facts(2) two en en] show ?thesis
    unfolding eightMatch_def by (intro p_stack p_discard p_draw)
qed

lemma eightMatch_facts:
  "CurrentPlayer eightMatch = ''a''" "PendingSpecialCard eightMatch = ''8''"
  "StackedSpecialCardPlayers eightMatch = [''b'']"
  "DiscardPile eightMatch = [mkCard ''8'' ''diamonds'' True, mkCard ''8'' ''hearts'' True]"
  "hand eightMatch ''b''
     = [mkCard ''5'' ''hearts'' False, mkCard ''6'' ''hearts'' False, mkCard ''7'' ''hearts'' False]"
  "Players eightMatch ''b'' \<noteq> None"
  by (simp_all add: eightMatch_def hand_def mkCard_def lobby5_def seats5_def AddPlayer_def
      NewGame_def StartGame_def DrawCard_def DiscardDrawnCard_def StackCard_def Let_def isSpecial_def
      createDeck_def suits_def ranks_def replicate4)

text \<open>
  Claim C10 (silent success on malformed parameters). The claim: with a seven or an
  eight pending, a use whose target index is out of range reveals nothing, returns
  true, clears the pending card and advances the queue. The looks of rank 7 and 8 guard
  the index with \<open>idx >= 0 && idx < 4\<close>, the constant and not the length of the hand as
  the swap of rank 9 does, and a successful stack shortens a hand. In \<open>eightMatch\<close>, a
  state of play, \<open>a\<close> has the eight pending and \<open>b\<close>, who has just stacked a card,
  holds three cards in the positions 0 to 2. When \<open>a\<close> asks for position 3 of \<open>b\<close> the
  index passes the guard and \<open>Cards[3]\<close> panics: the call does not return. Position 4,
  no less out of range, is turned away by the guard and gets what the claim says: no
  message, true, and \<open>b\<close> as the current player with the eight pending again.
\<close>

theorem use_beyond_hand_panics:
  "played eightMatch
   \<and> CurrentPlayer eightMatch = ''a'' \<and> PendingSpecialCard eightMatch = ''8''
   \<and> Rank (last (DiscardPile eightMatch)) = ''8''
   \<and> StackedSpecialCardPlayers eightMatch = [''b'']
   \<and> length (hand eightMatch ''b'') = 3
   \<and> UseSpecialCardFromDiscard ''a'' ''8''
         [''targetPlayerID'' \<mapsto> JString ''b'', ''targetIndex'' \<mapsto> JNumber 3] eightMatch
        = Inl IndexOutOfRange
   \<and> UseSpecialCardFromDiscard ''a'' ''8''
         [''targetPlayerID'' \<mapsto> JString ''b'', ''targetIndex'' \<mapsto> JNumber 4] eightMatch
        = Inr (True, [], eightMatch\<lparr>PendingSpecialCard := ''8'', CurrentPlayer := ''b'',
                                     StackedSpecialCardPlayers := []\<rparr>)"
proof -
  let ?p3 = "[''targetPlayerID'' \<mapsto> JString ''b'', ''targetIndex'' \<mapsto> JNumber 3]"
  let ?p4 = "[''targetPlayerID'' \<mapsto> JString ''b'', ''targetIndex'' \<mapsto> JNumber 4]"
  note f = eightMatch_facts
  from f(6) obtain p where p: "Players eightMatch ''b'' = Some p" by blast
  with f(5) have len: "length (Cards p) = 3" by (simp add: hand_def)
  from f(4) have pile: "DiscardPile eightMatch \<noteq> []"
    and top: "Rank (last (DiscardPile eightMatch)) = ''8''"
    by (simp_all add: mkCard_def)
  from f(3) p have q: "set (StackedSpecialCardPlayers eightMatch) \<subseteq> dom (Players eightMatch)"
    by auto
  from p len have "specialEffect ''a'' ''8'' ?p3 eightMatch = Inl IndexOutOfRange"
    by (simp add: specialEffect_def lookAtOther_def)
  from Use_panics [OF f(1) pile top f(2) this]
  have u3: "UseSpecialCardFromDiscard ''a'' ''8'' ?p3 eightMatch = Inl IndexOutOfRange" .
  from p have "specialEffect ''a'' ''8'' ?p4 eightMatch = Inr ([], eightMatch)"
    by (simp add: specialEffect_def lookAtOther_def)
  from Use_result [OF f(1) pile top f(2) q this] f(3)
  have u4: "UseSpecialCardFromDiscard ''a'' ''8'' ?p4 eightMatch
              = Inr (True, [], eightMatch\<lparr>PendingSpecialCard := ''8'', CurrentPlayer := ''b'',
                                           StackedSpecialCardPlayers := []\<rparr>)"
    by simp
  from f(5) have "length (hand eightMatch ''b'') = 3" by simp
  with eightMatch_played f(1,2,3) top u3 u4 show ?thesis by simp
qed

section \<open>The projection for a viewer\<close>

lemma projectCards_own:
  "projectCards True False cs = filter present cs"
  by (induction cs) (simp_all add: present_def)

lemma projectCards_other:
  "projectCards False False cs = map (\<lambda>c. if FaceUp c then c else emptyCard) (filter present cs)"
  by (induction cs) (simp_all add: present_def emptyCard_def)

lemma projectCards_ended:
  "projectCards own True cs = map (\<lambda>c. c\<lparr>FaceUp := True\<rparr>) (filter present cs)"
  by (induction cs) (simp_all add: present_def)

text \<open>The projection of another player's hand does not depend on its face-down cards.\<close>

lemma projectCards_redact:
  "projectCards False False (map redactCard cs) = projectCards False False cs"
  by (induction cs) (simp_all add: redactCard_def present_def)

lemma getGameStateForPlayer_redact:
  "getGameStateForPlayer viewer (redact viewer g) = getGameStateForPlayer viewer g"
proof (cases "Status g = ''ended''")
  case True
  then show ?thesis by (simp add: redact_def)
next
  case False
  have "(\<lambda>pid. map_option (\<lambda>player.
            \<lparr>viewID = ID player, viewName = Name player,
             viewCards = projectCards (pid = viewer) False (Cards player),
             viewScore = Score player\<rparr>)
          (if pid = viewer then Players g pid
           else map_option (\<lambda>p. p\<lparr>Cards := map redactCard (Cards p)\<rparr>) (Players g pid)))
        = (\<lambda>pid. map_option (\<lambda>player.
            \<lparr>viewID = ID player, viewName = Name player,
             viewCards = projectCards (pid = viewer) False (Cards player),
             viewScore = Score player\<rparr>) (Players g pid))"
    by (rule ext) (simp add: option.map_comp comp_def projectCards_redact)
  with False show ?thesis
    by (simp add: redact_def getGameStateForPlayer_def)
qed

lemma getGameStateForPlayer_cards:
  assumes "Players g pid = Some p"
  shows "\<exists>v. players (getGameStateForPlayer viewer g) pid = Some v
           \<and> viewCards v = projectCards (pid = viewer) (Status g = ''ended'') (Cards p)"
  using assms by (simp add: getGameStateForPlayer_def)

text \<open>
  Claim C9 (information hiding in the projection). The projection for a viewer is the
  same whatever the face-down cards of the other players, their drawn cards and the
  cards of the deck are, while the match has not ended. Of each player it shows the
  present cards of the hand: while the match has not ended, another player's face-down
  card as the empty marker and a face-up card as it is, and the viewer's own cards as
  they are; once the match has ended, every card of every player, face-up.
\<close>

theorem projection_information_hiding:
  "getGameStateForPlayer viewer (redact viewer g) = getGameStateForPlayer viewer g
   \<and> (\<forall>pid p. Players g pid = Some p \<longrightarrow>
        (\<exists>v. players (getGameStateForPlayer viewer g) pid = Some v
           \<and> (pid \<noteq> viewer \<and> Status g \<noteq> ''ended'' \<longrightarrow>
                viewCards v = map (\<lambda>c. if FaceUp c then c else emptyCard) (filter present (Cards p)))
           \<and> (pid = viewer \<and> Status g \<noteq> ''ended'' \<longrightarrow>
                viewCards v = filter present (Cards p))
           \<and> (Status g = ''ended'' \<longrightarrow>
                viewCards v = map (\<lambda>c. c\<lparr>FaceUp := True\<rparr>) (filter present (Cards p)))))"
proof (intro conjI allI impI)
  show "getGameStateForPlayer viewer (redact viewer g) = getGameStateForPlayer viewer g"
    by (rule getGameStateForPlayer_redact)
next
  fix pid p
  assume "Players g pid = Some p"
  from getGameStateForPlayer_cards [OF this, of viewer] obtain v where
    v: "players (getGameStateForPlayer viewer g) pid = Some v"
    and c: "viewCards v = projectCards (pid = viewer) (Status g = ''ended'') (Cards p)"
    by blast
  from c have "pid \<noteq> viewer \<and> Status g \<noteq> ''ended'' \<longrightarrow>
                 viewCards v = map (\<lambda>c. if FaceUp c then c else emptyCard) (filter present (Cards p))"
    by (simp add: projectCards_other)
  moreover from c have "pid = viewer \<and> Status g \<noteq> ''ended'' \<longrightarrow> viewCards v = filter present (Cards p)"
    by (simp add: projectCards_own)
  moreover from c have "Status g = ''ended'' \<longrightarrow>
                 viewCards v = map (\<lambda>c. c\<lparr>FaceUp := True\<rparr>) (filter present (Cards p))"
    by (simp add: projectCards_ended)
  ultimately show "\<exists>v. players (getGameStateForPlayer viewer g) pid = Some v
           \<and> (pid \<noteq> viewer \<and> Status g \<noteq> ''ended'' \<longrightarrow>
                viewCards v = map (\<lambda>c. if FaceUp c then c else emptyCard) (filter present (Cards p)))
           \<and> (pid = viewer \<and> Status g \<noteq> ''ended'' \<longrightarrow>
                viewCards v = filter present (Cards p))
           \<and> (Status g = ''ended'' \<longrightarrow>
                viewCards v = map (\<lambda>c. c\<lparr>FaceUp := True\<rparr>) (filter present (Cards p)))"
    using v by blast
qed

text \<open>
  The theorem at work: what \<open>p1\<close> sees in \<open>gridMatch\<close>. Its own four cards as they are,
  four empty markers for the face-down hand of \<open>p2\<close> and, once the round has ended,
  the four cards of \<open>p2\<close> face-up.
\<close>

theorem projection_information_hiding_witness:
  "Players gridMatch ''p2'' \<noteq> None \<and> Status gridMatch \<noteq> ''ended''
   \<and> Status (EndRound gridMatch) = ''ended''
   \<and> (\<exists>v. players (getGameStateForPlayer ''p1'' gridMatch) ''p2'' = Some v
          \<and> viewCards v = [emptyCard, emptyCard, emptyCard, emptyCard])
   \<and> (\<exists>v. players (getGameStateForPlayer ''p1'' gridMatch) ''p1'' = Some v
          \<and> viewCards v = hand gridMatch ''p1'')
   \<and> (\<exists>v. players (getGameStateForPlayer ''p1'' (EndRound gridMatch)) ''p2'' = Some v
          \<and> viewCards v = [mkCard ''2'' ''hearts'' True, mkCard ''3'' ''hearts'' True,
                            mkCard ''4'' ''hearts'' True, mkCard ''6'' ''hearts'' True])"
proof -
  let ?p1 = "player ''p1'' [mkCard ''5'' ''clubs'' False, mkCard ''9'' ''clubs'' False,
                            mkCard ''J'' ''clubs'' False, mkCard ''A'' ''clubs'' False]"
  let ?p2 = "player ''p2'' [mkCard ''2'' ''hearts'' False, mkCard ''3'' ''hearts'' False,
                            mkCard ''4'' ''hearts'' False, mkCard ''6'' ''hearts'' False]"
  have p1: "Players gridMatch ''p1'' = Some ?p1" and p2: "Players gridMatch ''p2'' = Some ?p2"
    and st: "Status gridMatch \<noteq> ''ended''"
    by (simp_all add: gridMatch_def lastCardMatch_def)
  have e2: "Players (EndRound gridMatch) ''p2'' = Some (revealAndScore ?p2)"
    and ste: "Status (EndRound gridMatch) = ''ended''"
    using p2 by (simp_all add: EndRound_def)
  have c2: "Cards (revealAndScore ?p2) =
              [mkCard ''2'' ''hearts'' True, mkCard ''3'' ''hearts'' True,
               mkCard ''4'' ''hearts'' True, mkCard ''6'' ''hearts'' True]"
    by (simp add: revealAndScore_def player_def mkCard_def)
  note play = projection_information_hiding [of "''p1''" gridMatch, THEN conjunct2, rule_format]
  note over = projection_information_hiding [of "''p1''" "EndRound gridMatch", THEN conjunct2, rule_format]
  from play [OF p2] obtain v2 where
    v2: "players (getGameStateForPlayer ''p1'' gridMatch) ''p2'' = Some v2"
    and "''p2'' \<noteq> ''p1'' \<and> Status gridMatch \<noteq> ''ended'' \<longrightarrow>
           viewCards v2 = map (\<lambda>c. if FaceUp c then c else emptyCard) (filter present (Cards ?p2))"
    by blast
  with st have "viewCards v2 = map (\<lambda>c. if FaceUp c then c else emptyCard) (filter present (Cards ?p2))"
    by simp
  then have "viewCards v2 = [emptyCard, emptyCard, emptyCard, emptyCard]"
    by (simp add: player_def mkCard_def present_def)
  with v2 have a: "\<exists>v. players (getGameStateForPlayer ''p1'' gridMatch) ''p2'' = Some v
          \<and> viewCards v = [emptyCard, emptyCard, emptyCard, emptyCard]"
    by blast
  from play [OF p1] obtain v1 where
    v1: "players (getGameStateForPlayer ''p1'' gridMatch) ''p1'' = Some v1"
    and "''p1'' = ''p1'' \<and> Status gridMatch \<noteq> ''ended'' \<longrightarrow> viewCards v1 = filter present (Cards ?p1)"
    by blast
  with st have "viewCards v1 = filter present (Cards ?p1)"
    by simp
  then have "viewCards v1 = hand gridMatch ''p1''"
    using p1 by (simp add: player_def mkCard_def present_def hand_def)
  with v1 have b: "\<exists>v. players (getGameStateForPlayer ''p1'' gridMatch) ''p1'' = Some v
          \<and> viewCards v = hand gridMatch ''p1''"
    by blast
  from over [OF e2] obtain w where
    w: "players (getGameStateForPlayer ''p1'' (EndRound gridMatch)) ''p2'' = Some w"
    and "Status (EndRound gridMatch) = ''ended'' \<longrightarrow>
           viewCards w = map (\<lambda>c. c\<lparr>FaceUp := True\<rparr>) (filter present (Cards (revealAndScore ?p2)))"
    by blast
  with ste c2 have "viewCards w = [mkCard ''2'' ''hearts'' True, mkCard ''3'' ''hearts'' True,
                                  mkCard ''4'' ''hearts'' True, mkCard ''6'' ''hearts'' True]"
    by (simp add: mkCard_def present_def)
  with w have c: "\<exists>v. players (getGameStateForPlayer ''p1'' (EndRound gridMatch)) ''p2'' = Some v
          \<and> viewCards v = [mkCard ''2'' ''hearts'' True, mkCard ''3'' ''hearts'' True,
                            mkCard ''4'' ''hearts'' True, mkCard ''6'' ''hearts'' True]"
    by blast
  from p2 st ste a b c show ?thesis by simp
qed

section \<open>The rotation of turns\<close>

lemma indexOf_Some: "indexOf ks pid = Some i \<Longrightarrow> i < length ks \<and> ks ! i = pid"
  by (induction ks arbitrary: i) (auto split: if_splits)

lemma indexOf_mem: "pid \<in> set ks \<Longrightarrow> \<exists>i. indexOf ks pid = Some i"
  by (induction ks) auto

lemma indexOf_None: "indexOf ks pid = None \<longleftrightarrow> pid \<notin> set ks"
  by (induction ks) auto

lemma indexOf_nth: "distinct ks \<Longrightarrow> i < length ks \<Longrightarrow> indexOf ks (ks ! i) = Some i"
proof (induction ks arbitrary: i)
  case Nil
  then show ?case by simp
next
  case (Cons k ks)
  then show ?case by (cases i) auto
qed

lemma indexOf_snoc:
  "indexOf (xs @ [x]) pid =
     (case indexOf xs pid of
        Some i \<Rightarrow> Some i
      | None \<Rightarrow> if x = pid then Some (length xs) else None)"
  by (induction xs) (auto split: option.splits)

lemma successor_mem:
  assumes "pid \<in> set ks"
  shows "successor ks pid \<in> set ks"
proof -
  from indexOf_mem [OF assms] obtain i where i: "indexOf ks pid = Some i" ..
  from indexOf_Some [OF i] have "0 < length ks" by auto
  then have "(i + 1) mod length ks < length ks" by simp
  with i show ?thesis by (simp add: successor_def)
qed

text \<open>
  The entry after \<open>pid\<close> is the same in a list and in the list that begins one entry
  later: the successor belongs to the cycle, not to the place where the loop starts.
\<close>

lemma successor_rotate1:
  assumes "distinct ks"
  shows "successor (rotate1 ks) pid = successor ks pid"
proof (cases ks)
  case Nil
  then show ?thesis by simp
next
  case (Cons x xs)
  show ?thesis
  proof (cases "x = pid")
    case True
    with assms Cons have "pid \<notin> set xs" by simp
    then have none: "indexOf xs pid = None" by (simp add: indexOf_None)
    from Cons True none have l: "successor (rotate1 ks) pid = (xs @ [x]) ! 0"
      by (simp add: successor_def indexOf_snoc)
    from Cons True have r: "successor ks pid = (x # xs) ! (1 mod Suc (length xs))"
      by (simp add: successor_def)
    show ?thesis
    proof (cases xs)
      case Nil
      with l r show ?thesis by simp
    next
      case (Cons y ys)
      with l r show ?thesis by simp
    qed
  next
    case False
    show ?thesis
    proof (cases "indexOf xs pid")
      case None
      with Cons False show ?thesis by (simp add: successor_def indexOf_snoc)
    next
      case (Some i)
      from indexOf_Some [OF Some] have il: "i < length xs" by simp
      show ?thesis
      proof (cases "Suc i < length xs")
        case True
        with Cons False Some show ?thesis
          by (simp add: successor_def indexOf_snoc nth_append)
      next
        case last: False
        with il have "Suc i = length xs" by simp
        with Cons False Some show ?thesis
          by (simp add: successor_def indexOf_snoc nth_append)
      qed
    qed
  qed
qed

lemma successor_rotate:
  assumes "distinct ks"
  shows "successor (rotate n ks) pid = successor ks pid"
proof (induction n)
  case 0
  show ?case by simp
next
  case (Suc n)
  from assms have "distinct (rotate n ks)" by simp
  from successor_rotate1 [OF this, of pid] Suc show ?case by simp
qed

text \<open>
  \<open>EndTurn\<close> reads the order of its loop only to find the player and the entry after
  the player.
\<close>

lemma EndTurn_successor:
  assumes "pid \<in> set ks \<longleftrightarrow> pid \<in> set ks'" and "successor ks pid = successor ks' pid"
  shows "EndTurn ks pid g = EndTurn ks' pid g"
proof (cases "indexOf ks pid")
  case None
  then have "pid \<notin> set ks" by (simp add: indexOf_None)
  with assms(1) have "indexOf ks' pid = None" by (simp add: indexOf_None)
  with None show ?thesis by (simp add: EndTurn_def)
next
  case (Some i)
  from indexOf_Some [OF Some] have "pid \<in> set ks" by auto
  with assms(1) have "pid \<in> set ks'" by simp
  from indexOf_mem [OF this] obtain j where j: "indexOf ks' pid = Some j" ..
  from Some j assms(2) have "ks ! ((i + 1) mod length ks) = ks' ! ((j + 1) mod length ks')"
    by (simp add: successor_def)
  with Some j show ?thesis by (simp add: EndTurn_def Let_def)
qed

lemma EndTurn_rotate:
  assumes "distinct seats"
  shows "EndTurn (rotate n seats) pid g = EndTurn seats pid g"
  by (rule EndTurn_successor) (simp_all add: successor_rotate [OF assms])

subsection \<open>The seats of a match\<close>

lemma dom_revealed: "dom (\<lambda>x. map_option f (m x)) = dom m"
  by (auto simp add: dom_def)

lemma EndRound_dom: "dom (Players (EndRound g)) = dom (Players g)"
  by (simp add: EndRound_def dom_revealed)

lemma StartGame_dom: "dom (Players (StartGame ks ks' g)) = dom (Players g)"
  by (simp add: StartGame_def dealPlayers_frame)

lemma DrawCard_dom: "dom (Players (snd (DrawCard pid g))) = dom (Players g)"
  by (simp add: DrawCard_def EndRound_dom split: list.splits)

lemma DiscardDrawnCard_dom: "dom (Players (snd (DiscardDrawnCard pid g))) = dom (Players g)"
  by (simp add: DiscardDrawnCard_def Let_def split: option.splits)

lemma SwapCard_dom:
  assumes "SwapCard pid i g = Inr (ok, g')"
  shows "dom (Players g') = dom (Players g)"
  using assms
  by (auto simp add: SwapCard_def Let_def split: option.splits if_splits)

lemma Use_dom:
  assumes "UseSpecialCardFromDiscard pid r params g = Inr (ok, msgs, g')"
  shows "dom (Players g') = dom (Players g)"
proof (cases "specialEffect pid r params g")
  case (Inl e)
  with assms show ?thesis
    by (simp add: UseSpecialCardFromDiscard_def split: if_splits)
next
  case (Inr res)
  obtain ms g1 where res: "res = (ms, g1)" by (cases res)
  with Inr have eff: "specialEffect pid r params g = Inr (ms, g1)" by simp
  from specialEffect_frame [OF eff] have d: "dom (Players g1) = dom (Players g)" by simp
  from assms eff have "g' = g \<or> Players g' = Players g1"
    by (auto simp add: UseSpecialCardFromDiscard_def Let_def split: if_splits list.splits)
  then show ?thesis
  proof
    assume "g' = g"
    then show ?thesis by simp
  next
    assume "Players g' = Players g1"
    with d show ?thesis by simp
  qed
qed

lemma SkipSpecialCard_dom: "dom (Players (SkipSpecialCard pid g)) = dom (Players g)"
  by (simp add: SkipSpecialCard_def Let_def split: list.splits)

lemma EndTurn_dom: "dom (Players (EndTurn ks pid g)) = dom (Players g)"
  by (simp add: EndTurn_def Let_def EndRound_dom split: option.splits)

lemma StackCard_dom: "dom (Players (snd (snd (StackCard pid i g)))) = dom (Players g)"
  by (auto simp add: StackCard_def Let_def split: option.splits list.splits)

lemma CallPablo_dom: "dom (Players (CallPablo pid g)) = dom (Players g)"
  by (simp add: CallPablo_def)

text \<open>The seats are the keys of the players map, each once.\<close>

lemma seated_enumerates:
  assumes "seated seats g"
  shows "distinct seats \<and> set seats = dom (Players g)"
  using assms
proof (induction rule: seated.induct)
  case (s_new gid deck)
  show ?case by (simp add: NewGame_def)
next
  case (s_join seats g pid name)
  then show ?case by (auto simp add: AddPlayer_def)
next
  case (s_start seats g m n)
  then show ?case by (simp add: StartGame_dom)
next
  case (s_draw seats g pid)
  then show ?case by (simp add: DrawCard_dom)
next
  case (s_discard seats g pid)
  then show ?case by (simp add: DiscardDrawnCard_dom)
next
  case (s_swap seats g pid i ok g')
  from SwapCard_dom [OF s_swap.hyps(2)] s_swap.IH show ?case by simp
next
  case (s_use seats g pid r params ok msgs g')
  from Use_dom [OF s_use.hyps(2)] s_use.IH show ?case by simp
next
  case (s_skip seats g pid)
  then show ?case by (simp add: SkipSpecialCard_dom)
next
  case (s_endTurn seats g n pid)
  then show ?case by (simp add: EndTurn_dom)
next
  case (s_stack seats g pid i)
  then show ?case by (simp add: StackCard_dom)
next
  case (s_pablo seats g pid)
  then show ?case by (simp add: CallPablo_dom)
qed

lemma seated3: "seated [''a'', ''b'', ''c''] started3"
proof -
  let ?g0 = "NewGame ''m'' createDeck"
  let ?g1 = "snd (AddPlayer ''a'' ''Al'' ?g0)"
  let ?g2 = "snd (AddPlayer ''b'' ''Bo'' ?g1)"
  have s0: "seated [] ?g0" by (rule s_new)
  from s_join [OF s0, of "''a''" "''Al''"] have s1: "seated [''a''] ?g1"
    by (simp add: AddPlayer_def NewGame_def)
  from s_join [OF s1, of "''b''" "''Bo''"] have s2: "seated [''a'', ''b''] ?g2"
    by (simp add: AddPlayer_def NewGame_def)
  from s_join [OF s2, of "''c''" "''Cy''"] have s3: "seated [''a'', ''b'', ''c''] lobby3"
    by (simp add: AddPlayer_def NewGame_def lobby3_def)
  from s_start [OF s3, of 0 0] show ?thesis by (simp add: started3_def)
qed

text \<open>
  Claim C6 (deterministic rotation). The players of the match joined in the order
  \<open>seats\<close>, and the current player \<open>pid\<close>, one of them, ends the turn holding no drawn
  card and with no special card to resolve. The loop of \<open>EndTurn\<close> over the players map
  starts at any slot \<open>n\<close> and so runs through \<open>rotate n seats\<close>. Wherever it starts, the
  call ends in the state that the join order itself gives. The entry after the player
  in the join order, wrapping around, is a seat; if Pablo was called and that seat is
  the caller's, the round ends; otherwise that seat becomes the current player and the
  has-drawn marks of both players are reset.
\<close>

theorem endTurn_rotation:
  assumes "seated seats g" and "pid \<in> set seats"
    and "CurrentPlayer g = pid" and "DrawnCards g pid = None"
    and "\<not> (DiscardPile g \<noteq> [] \<and> isSpecial (Rank (last (DiscardPile g)))
             \<and> PendingSpecialCard g \<noteq> '''')"
  shows "EndTurn (rotate n seats) pid g = EndTurn seats pid g
         \<and> (\<exists>i < length seats. seats ! i = pid
               \<and> successor seats pid = seats ! ((i + 1) mod length seats))
         \<and> Players g (successor seats pid) \<noteq> None
         \<and> (if PabloCalled g \<and> successor seats pid = PabloCaller g
            then Status (EndTurn (rotate n seats) pid g) = ''ended''
            else CurrentPlayer (EndTurn (rotate n seats) pid g) = successor seats pid
                 \<and> \<not> HasDrawnThisTurn (EndTurn (rotate n seats) pid g) pid
                 \<and> \<not> HasDrawnThisTurn (EndTurn (rotate n seats) pid g) (successor seats pid))"
proof -
  from seated_enumerates [OF assms(1)] have dist: "distinct seats"
    and keys: "set seats = dom (Players g)" by simp_all
  from indexOf_mem [OF assms(2)] obtain i where i: "indexOf seats pid = Some i" ..
  from indexOf_Some [OF i] have il: "i < length seats" and ki: "seats ! i = pid" by simp_all
  from i have s: "successor seats pid = seats ! ((i + 1) mod length seats)"
    by (simp add: successor_def)
  from successor_mem [OF assms(2)] keys have seat: "Players g (successor seats pid) \<noteq> None"
    by auto
  have rot: "EndTurn (rotate n seats) pid g = EndTurn seats pid g"
    using dist by (rule EndTurn_rotate)
  have "if PabloCalled g \<and> successor seats pid = PabloCaller g
        then Status (EndTurn seats pid g) = ''ended''
        else CurrentPlayer (EndTurn seats pid g) = successor seats pid
             \<and> \<not> HasDrawnThisTurn (EndTurn seats pid g) pid
             \<and> \<not> HasDrawnThisTurn (EndTurn seats pid g) (successor seats pid)"
    using assms(3,4,5) i s by (auto simp add: EndTurn_def Let_def EndRound_def)
  with rot il ki s seat show ?thesis by auto
qed

text \<open>
  The theorem at work: \<open>a\<close>, \<open>b\<close> and \<open>c\<close> joined in this order and \<open>a\<close> is the current
  player of \<open>started3\<close>. The loop that starts at the third slot meets the players as
  \<open>c\<close>, \<open>a\<close>, \<open>b\<close>, and the turn passes to \<open>b\<close>, the next to have joined.
\<close>

theorem endTurn_rotation_witness:
  "seated [''a'', ''b'', ''c''] started3 \<and> CurrentPlayer started3 = ''a''
   \<and> DrawnCards started3 ''a'' = None \<and> DiscardPile started3 = []
   \<and> rotate 2 [''a'', ''b'', ''c''] = [''c'', ''a'', ''b'']
   \<and> successor [''a'', ''b'', ''c''] ''a'' = ''b''
   \<and> CurrentPlayer (EndTurn [''c'', ''a'', ''b''] ''a'' started3) = ''b''
   \<and> EndTurn [''c'', ''a'', ''b''] ''a'' started3 = EndTurn [''a'', ''b'', ''c''] ''a'' started3"
proof -
  have h1: "seated [''a'', ''b'', ''c''] started3" by (rule seated3)
  have h2: "''a'' \<in> set [''a'', ''b'', ''c'']" by simp
  have h3: "CurrentPlayer started3 = ''a''" and h4: "DrawnCards started3 ''a'' = None"
    and d: "DiscardPile started3 = []" and np: "\<not> PabloCalled started3"
    using started3_facts by simp_all
  have h5: "\<not> (DiscardPile started3 \<noteq> [] \<and> isSpecial (Rank (last (DiscardPile started3)))
             \<and> PendingSpecialCard started3 \<noteq> '''')"
    using d by simp
  have r: "rotate 2 [''a'', ''b'', ''c''] = [''c'', ''a'', ''b'']"
    by (simp add: numeral_2_eq_2)
  have s: "successor [''a'', ''b'', ''c''] ''a'' = ''b''"
    by (simp add: successor_def)
  note turn = endTurn_rotation [OF h1 h2 h3 h4 h5, of 2]
  from turn [THEN conjunct1] r
  have e: "EndTurn [''c'', ''a'', ''b''] ''a'' started3 = EndTurn [''a'', ''b'', ''c''] ''a'' started3"
    by simp
  from turn [THEN conjunct2] r s np
  have c: "CurrentPlayer (EndTurn [''c'', ''a'', ''b''] ''a'' started3) = ''b''"
    by simp
  from h1 h3 h4 d r s c e show ?thesis by blast
qed

section \<open>After the end of the round\<close>

text \<open>No operation of play leaves the status \<open>ended\<close>; none of them looks at it either.\<close>

lemma DrawCard_ended:
  assumes "Status g = ''ended''"
  shows "Status (snd (DrawCard pid g)) = ''ended'' \<and> (\<not> fst (DrawCard pid g) \<longrightarrow> snd (DrawCard pid g) = g)"
  using assms by (simp add: DrawCard_def split: list.splits)

lemma DiscardDrawnCard_ended:
  assumes "Status g = ''ended''"
  shows "Status (snd (DiscardDrawnCard pid g)) = ''ended''
         \<and> (\<not> fst (DiscardDrawnCard pid g) \<longrightarrow> snd (DiscardDrawnCard pid g) = g)"
  using assms by (simp add: DiscardDrawnCard_def Let_def split: option.splits)

lemma SwapCard_ended:
  assumes "Status g = ''ended''" and "SwapCard pid i g = Inr (ok, g')"
  shows "Status g' = ''ended'' \<and> (\<not> ok \<longrightarrow> g' = g)"
  using assms by (auto simp add: SwapCard_def Let_def split: option.splits if_splits)

lemma Use_ended:
  assumes "Status g = ''ended''" and "UseSpecialCardFromDiscard pid r params g = Inr (ok, msgs, g')"
  shows "Status g' = ''ended'' \<and> (\<not> ok \<longrightarrow> g' = g)"
proof (cases "specialEffect pid r params g")
  case (Inl e)
  with assms show ?thesis
    by (auto simp add: UseSpecialCardFromDiscard_def split: if_splits)
next
  case (Inr res)
  obtain ms g1 where res: "res = (ms, g1)" by (cases res)
  from specialEffect_frame [of pid r params g ms g1] Inr res
  have g1: "g1 = g\<lparr>Players := Players g1\<rparr>" by simp
  have "Status g1 = Status g" by (subst g1) simp
  with assms Inr res show ?thesis
    by (auto simp add: UseSpecialCardFromDiscard_def Let_def split: if_splits list.splits)
qed

lemma SkipSpecialCard_Status: "Status (SkipSpecialCard pid g) = Status g"
  by (simp add: SkipSpecialCard_def Let_def split: list.splits)

lemma EndTurn_ended:
  assumes "Status g = ''ended''"
  shows "Status (EndTurn ks pid g) = ''ended''"
  using assms by (simp add: EndTurn_def Let_def EndRound_def split: option.splits)

text \<open>
  Claim C2 (terminal end state), as the code has it. On a match whose status is
  \<open>ended\<close>, draw, discard, swap, stack, use of a special card, skip and end of turn
  all leave the status \<open>ended\<close>, and a draw, discard, swap or use that is rejected
  (returns false) leaves the whole state as it was. An operation that is accepted acts
  as it does during play.
\<close>

theorem ended_stays_ended:
  assumes "Status g = ''ended''"
  shows "Status (snd (DrawCard pid g)) = ''ended''
         \<and> (\<not> fst (DrawCard pid g) \<longrightarrow> snd (DrawCard pid g) = g)
         \<and> Status (snd (DiscardDrawnCard pid g)) = ''ended''
         \<and> (\<not> fst (DiscardDrawnCard pid g) \<longrightarrow> snd (DiscardDrawnCard pid g) = g)
         \<and> (\<forall>ok g'. SwapCard pid i g = Inr (ok, g') \<longrightarrow> Status g' = ''ended'' \<and> (\<not> ok \<longrightarrow> g' = g))
         \<and> (\<forall>ok msgs g'. UseSpecialCardFromDiscard pid r params g = Inr (ok, msgs, g')
               \<longrightarrow> Status g' = ''ended'' \<and> (\<not> ok \<longrightarrow> g' = g))
         \<and> Status (snd (snd (StackCard pid i g))) = ''ended''
         \<and> Status (SkipSpecialCard pid g) = ''ended''
         \<and> Status (EndTurn ks pid g) = ''ended''"
  using DrawCard_ended [OF assms, of pid] DiscardDrawnCard_ended [OF assms, of pid]
    SwapCard_ended [OF assms, of pid i] Use_ended [OF assms, of pid r params]
    EndTurn_ended [OF assms, of ks pid] assms
  by (simp add: StackCard_Status SkipSpecialCard_Status)

text \<open>
  The match \<open>pabloRound\<close>: it has ended, the turn is with \<open>p2\<close> and 42 cards are left in
  the deck.
\<close>

lemma started2_facts:
  "Status started2 = ''playing''" "CurrentPlayer started2 = ''p1''" "DrawnCards started2 = Map.empty"
  "DiscardPile started2 = []" "\<not> PabloCalled started2" "Deck started2 = drop 8 createDeck"
  "StackedSpecialCardPlayers started2 = []" "HasDrawnThisTurn started2 = (\<lambda>_. False)"
  by (simp_all add: started2_def StartGame_def lobby2_def AddPlayer_def NewGame_def createDeck_def
      suits_def ranks_def)

lemma pabloRound_facts:
  "Status pabloRound = ''ended''" "CurrentPlayer pabloRound = ''p2''"
  "\<not> HasDrawnThisTurn pabloRound ''p2''" "length (Deck pabloRound) = 42"
  using started2_facts
  by (simp_all add: pabloRound_def CallPablo_def DrawCard_def DiscardDrawnCard_def SkipSpecialCard_def
      EndTurn_def EndRound_def Let_def isSpecial_def createDeck_def suits_def ranks_def)

text \<open>
  The theorem at work: on \<open>pabloRound\<close> a draw by \<open>p1\<close>, who is not the current player,
  is rejected and changes nothing, and the status is \<open>ended\<close> after a draw by \<open>p2\<close>.
\<close>

theorem ended_stays_ended_witness:
  "Status pabloRound = ''ended''
   \<and> DrawCard ''p1'' pabloRound = (False, pabloRound)
   \<and> Status (snd (DrawCard ''p2'' pabloRound)) = ''ended''"
proof -
  have e: "Status pabloRound = ''ended''" by (rule pabloRound_facts)
  have "\<not> fst (DrawCard ''p1'' pabloRound)"
    using pabloRound_facts by (simp add: DrawCard_def)
  with ended_stays_ended [OF e, of "''p1''"] have "DrawCard ''p1'' pabloRound = (False, pabloRound)"
    by (simp add: prod_eq_iff)
  moreover from ended_stays_ended [OF e, of "''p2''"]
  have "Status (snd (DrawCard ''p2'' pabloRound)) = ''ended''" by simp
  ultimately show ?thesis using e by simp
qed

text \<open>
  Against claim C2 as stated: the round of \<open>pabloRound\<close> has ended, and the current
  player \<open>p2\<close> still draws a card, which takes the front card off the deck.
\<close>

theorem draw_after_end_counterexample:
  "Status pabloRound = ''ended''
   \<and> fst (DrawCard ''p2'' pabloRound)
   \<and> length (Deck pabloRound) = 42
   \<and> length (Deck (snd (DrawCard ''p2'' pabloRound))) = 41"
proof -
  from pabloRound_facts(4) obtain c rest where d: "Deck pabloRound = c # rest"
    by (cases "Deck pabloRound") simp_all
  with pabloRound_facts have "length rest = 41" by simp
  with d pabloRound_facts show ?thesis
    by (simp add: DrawCard_def)
qed

section \<open>The give-back obligation\<close>

lemma EndRound_hand_rank:
  "map Rank (hand (EndRound g) pid) = map Rank (hand g pid)"
  by (simp add: hand_def EndRound_def revealAndScore_def Let_def comp_def split: option.splits)

lemma StackOpponentCard_success:
  assumes "StackOpponentCard ks actor target slot m = (True, m')"
  shows "\<exists>pt. Players (game m) target = Some pt \<and> 0 \<le> slot \<and> slot < int (length (Cards pt))
           \<and> map Rank (hand (game m') target) = map Rank ((Cards pt)[nat slot := emptyCard])
           \<and> DiscardPile (game m') = DiscardPile (game m) @ [(Cards pt ! nat slot)\<lparr>FaceUp := True\<rparr>]
           \<and> (target \<noteq> actor \<longrightarrow>
                 pendingGive m' = Some \<lparr>ActorID = actor, TargetPlayerID = target, TargetIndex = slot\<rparr>)"
proof -
  let ?g = "game m"
  from assms obtain pa pt where pa: "Players ?g actor = Some pa" and pt: "Players ?g target = Some pt"
    by (auto simp add: StackOpponentCard_def Let_def split: if_splits option.splits)
  let ?g1 = "?g\<lparr>DiscardPile := DiscardPile ?g @ [(Cards pt ! nat slot)\<lparr>FaceUp := True\<rparr>],
                Players := (Players ?g)(target \<mapsto> pt\<lparr>Cards := (Cards pt)[nat slot := emptyCard]\<rparr>),
                StackedSpecialCardPlayers :=
                  (if isSpecial (Rank (last (DiscardPile ?g))) \<and> actor \<notin> set (StackedSpecialCardPlayers ?g)
                   then StackedSpecialCardPlayers ?g @ [actor] else StackedSpecialCardPlayers ?g),
                StackableCardIndex := - 1\<rparr>"
  from assms pa pt have rng: "0 \<le> slot" "slot < int (length (Cards pt))"
    and m': "m' = \<lparr>game = (if zeroCardWin ks ?g1 then EndRound ?g1 else ?g1),
                   pendingGive = (if target \<noteq> actor
                                  then Some \<lparr>ActorID = actor, TargetPlayerID = target, TargetIndex = slot\<rparr>
                                  else pendingGive m)\<rparr>"
    by (auto simp add: StackOpponentCard_def Let_def split: if_splits list.splits)
  have h1: "hand ?g1 target = (Cards pt)[nat slot := emptyCard]"
    by (simp add: hand_def)
  have "map Rank (hand (game m') target) = map Rank (hand ?g1 target)"
    unfolding m' by (simp add: EndRound_hand_rank)
  with h1 have a: "map Rank (hand (game m') target) = map Rank ((Cards pt)[nat slot := emptyCard])"
    by simp
  have b: "DiscardPile (game m') = DiscardPile ?g @ [(Cards pt ! nat slot)\<lparr>FaceUp := True\<rparr>]"
    unfolding m' by (simp add: EndRound_def)
  have c: "target \<noteq> actor \<longrightarrow>
             pendingGive m' = Some \<lparr>ActorID = actor, TargetPlayerID = target, TargetIndex = slot\<rparr>"
    unfolding m' by simp
  from pt rng a b c show ?thesis by blast
qed

lemma perform_gate:
  assumes "owesCard actor m" and "\<not> isGive a"
  shows "perform actor a m = (False, m)"
  using assms by (simp add: perform_def)

lemma HandleGiveCard_moves:
  assumes "pendingGive m = Some pg" and "ActorID pg = actor" and "TargetPlayerID pg \<noteq> actor"
    and "Players (game m) actor = Some pa" and "Players (game m) (TargetPlayerID pg) = Some pt"
    and "0 \<le> s" and "s < int (length (Cards pa))"
    and "0 \<le> TargetIndex pg" and "TargetIndex pg < int (length (Cards pt))"
    and "Rank (Cards pa ! nat s) \<noteq> ''''"
  shows "\<exists>m'. HandleGiveCard actor s m = (True, m') \<and> pendingGive m' = None
           \<and> hand (game m') actor = (Cards pa)[nat s := emptyCard]
           \<and> hand (game m') (TargetPlayerID pg)
                = (Cards pt)[nat (TargetIndex pg) := (Cards pa ! nat s)\<lparr>FaceUp := False\<rparr>]"
  using assms by (simp add: HandleGiveCard_def Let_def hand_def)

lemma perform_give:
  assumes "pendingGive m = Some pg" and "ActorID pg = actor"
  shows "perform actor (GiveCard s) m = HandleGiveCard actor s m"
  using assms by (simp add: perform_def)

text \<open>
  Claim C3 (give-back obligation), on the operations modelled from the specification.
  A successful stack of a card from an opponent's slot leaves that slot empty and sets
  \<open>pendingGive\<close> to the actor, the target and the slot. While \<open>pendingGive\<close> names the
  actor, every action of the actor other than giving a card, be it a draw, a call of
  Pablo or any other action of the contract, is rejected and changes nothing. Giving the card of a slot that holds one empties that slot, puts the card
  face-down into the target's vacated slot and clears \<open>pendingGive\<close>.
\<close>

theorem giveBack_obligation:
  "(\<forall>m'. StackOpponentCard ks actor target slot m = (True, m') \<and> target \<noteq> actor \<longrightarrow>
        pendingGive m' = Some \<lparr>ActorID = actor, TargetPlayerID = target, TargetIndex = slot\<rparr>
        \<and> Rank (hand (game m') target ! nat slot) = '''')
   \<and> (owesCard actor m \<and> \<not> isGive a \<longrightarrow> perform actor a m = (False, m))
   \<and> (\<forall>pg pa pt.
        pendingGive m = Some pg \<and> ActorID pg = actor \<and> TargetPlayerID pg \<noteq> actor
        \<and> Players (game m) actor = Some pa \<and> Players (game m) (TargetPlayerID pg) = Some pt
        \<and> 0 \<le> s \<and> s < int (length (Cards pa))
        \<and> 0 \<le> TargetIndex pg \<and> TargetIndex pg < int (length (Cards pt))
        \<and> Rank (Cards pa ! nat s) \<noteq> '''' \<longrightarrow>
        (\<exists>m'. perform actor (GiveCard s) m = (True, m') \<and> pendingGive m' = None
           \<and> hand (game m') actor = (Cards pa)[nat s := emptyCard]
           \<and> hand (game m') (TargetPlayerID pg)
                = (Cards pt)[nat (TargetIndex pg) := (Cards pa ! nat s)\<lparr>FaceUp := False\<rparr>]))"
proof (intro conjI allI impI)
  fix m'
  assume a: "StackOpponentCard ks actor target slot m = (True, m') \<and> target \<noteq> actor"
  from a have st: "StackOpponentCard ks actor target slot m = (True, m')" and ne: "target \<noteq> actor"
    by simp_all
  from StackOpponentCard_success [OF st] obtain pt where
    all: "Players (game m) target = Some pt \<and> 0 \<le> slot \<and> slot < int (length (Cards pt))
           \<and> map Rank (hand (game m') target) = map Rank ((Cards pt)[nat slot := emptyCard])
           \<and> DiscardPile (game m') = DiscardPile (game m) @ [(Cards pt ! nat slot)\<lparr>FaceUp := True\<rparr>]
           \<and> (target \<noteq> actor \<longrightarrow>
                 pendingGive m' = Some \<lparr>ActorID = actor, TargetPlayerID = target, TargetIndex = slot\<rparr>)" ..
  from all ne have rng: "0 \<le> slot" "slot < int (length (Cards pt))"
    and rk: "map Rank (hand (game m') target) = map Rank ((Cards pt)[nat slot := emptyCard])"
    and pg: "pendingGive m' = Some \<lparr>ActorID = actor, TargetPlayerID = target, TargetIndex = slot\<rparr>"
    by simp_all
  from rng have n: "nat slot < length (Cards pt)" by simp
  from rk have "length (hand (game m') target) = length (Cards pt)"
    by (metis length_list_update length_map)
  with n have n': "nat slot < length (hand (game m') target)" by simp
  from rk have "map Rank (hand (game m') target) ! nat slot
                  = map Rank ((Cards pt)[nat slot := emptyCard]) ! nat slot"
    by simp
  with n n' have "Rank (hand (game m') target ! nat slot) = ''''"
    by (simp add: emptyCard_def)
  with pg show "pendingGive m' = Some \<lparr>ActorID = actor, TargetPlayerID = target, TargetIndex = slot\<rparr>"
    and "Rank (hand (game m') target ! nat slot) = ''''"
    by simp_all
next
  assume "owesCard actor m \<and> \<not> isGive a"
  then show "perform actor a m = (False, m)" by (simp add: perform_gate)
next
  fix pg pa pt
  assume h: "pendingGive m = Some pg \<and> ActorID pg = actor \<and> TargetPlayerID pg \<noteq> actor
        \<and> Players (game m) actor = Some pa \<and> Players (game m) (TargetPlayerID pg) = Some pt
        \<and> 0 \<le> s \<and> s < int (length (Cards pa))
        \<and> 0 \<le> TargetIndex pg \<and> TargetIndex pg < int (length (Cards pt))
        \<and> Rank (Cards pa ! nat s) \<noteq> ''''"
  then have "perform actor (GiveCard s) m = HandleGiveCard actor s m"
    by (simp add: perform_give)
  with HandleGiveCard_moves [of m pg actor pa pt s] h
  show "\<exists>m'. perform actor (GiveCard s) m = (True, m') \<and> pendingGive m' = None
           \<and> hand (game m') actor = (Cards pa)[nat s := emptyCard]
           \<and> hand (game m') (TargetPlayerID pg)
                = (Cards pt)[nat (TargetIndex pg) := (Cards pa ! nat s)\<lparr>FaceUp := False\<rparr>]"
    by simp
qed

text \<open>
  The theorem at work: in \<open>giveMatch\<close> the five of hearts is open to stacking and \<open>p2\<close>
  holds the five of spades in slot 0. Player \<open>p1\<close> stacks it away; then \<open>p1\<close> may
  neither draw nor call Pablo, and gives the nine of clubs from its slot 1 into the emptied slot of \<open>p2\<close>.
\<close>

theorem giveBack_obligation_witness:
  "(\<exists>m1. StackOpponentCard [''p1'', ''p2''] ''p1'' ''p2'' 0 giveMatch = (True, m1)
      \<and> pendingGive m1 = Some \<lparr>ActorID = ''p1'', TargetPlayerID = ''p2'', TargetIndex = 0\<rparr>
      \<and> Rank (hand (game m1) ''p2'' ! 0) = ''''
      \<and> perform ''p1'' Draw m1 = (False, m1)
      \<and> perform ''p1'' Pablo m1 = (False, m1)
      \<and> (\<exists>m2. perform ''p1'' (GiveCard 1) m1 = (True, m2) \<and> pendingGive m2 = None
             \<and> hand (game m2) ''p1''
                  = [mkCard ''5'' ''clubs'' False, emptyCard, mkCard ''J'' ''clubs'' False,
                     mkCard ''A'' ''clubs'' False]
             \<and> hand (game m2) ''p2''
                  = [mkCard ''9'' ''clubs'' False, mkCard ''3'' ''hearts'' False,
                     mkCard ''4'' ''hearts'' False, mkCard ''6'' ''hearts'' False]))"
proof -
  let ?ks = "[''p1'', ''p2'']"
  let ?m1 = "snd (StackOpponentCard ?ks ''p1'' ''p2'' 0 giveMatch)"
  let ?pg = "\<lparr>ActorID = ''p1'', TargetPlayerID = ''p2'', TargetIndex = 0\<rparr>"
  let ?pa = "player ''p1'' [mkCard ''5'' ''clubs'' False, mkCard ''9'' ''clubs'' False,
                            mkCard ''J'' ''clubs'' False, mkCard ''A'' ''clubs'' False]"
  let ?pt = "player ''p2'' [emptyCard, mkCard ''3'' ''hearts'' False,
                            mkCard ''4'' ''hearts'' False, mkCard ''6'' ''hearts'' False]"
  have ok: "fst (StackOpponentCard ?ks ''p1'' ''p2'' 0 giveMatch)"
    and pa: "Players (game ?m1) ''p1'' = Some ?pa"
    and pt: "Players (game ?m1) ''p2'' = Some ?pt"
    by (simp_all add: StackOpponentCard_def giveMatch_def gridMatch_def lastCardMatch_def player_def
        mkCard_def zeroCardWin_def nonEmptySlots_def Let_def emptyCard_def isSpecial_def)
  then have st: "StackOpponentCard ?ks ''p1'' ''p2'' 0 giveMatch = (True, ?m1)"
    by (simp add: prod_eq_iff)
  have ne: "''p2'' \<noteq> ''p1''" by simp
  note stacked = giveBack_obligation [where ks = ?ks and actor = "''p1''" and target = "''p2''"
      and slot = 0 and m = giveMatch, THEN conjunct1, rule_format]
  from stacked [of ?m1] st ne
  have pg: "pendingGive ?m1 = Some ?pg" and empty: "Rank (hand (game ?m1) ''p2'' ! 0) = ''''"
    by simp_all
  from pg have owes: "owesCard ''p1'' ?m1" by (simp add: owesCard_def)
  note gate = giveBack_obligation [where actor = "''p1''" and m = ?m1 and a = Draw,
      THEN conjunct2, THEN conjunct1, rule_format]
  from gate owes have rejected: "perform ''p1'' Draw ?m1 = (False, ?m1)" by simp
  note gate' = giveBack_obligation [where actor = "''p1''" and m = ?m1 and a = Pablo,
      THEN conjunct2, THEN conjunct1, rule_format]
  from gate' owes have rejected': "perform ''p1'' Pablo ?m1 = (False, ?m1)" by simp
  note give = giveBack_obligation [where actor = "''p1''" and m = ?m1 and s = 1,
      THEN conjunct2, THEN conjunct2, rule_format]
  have "pendingGive ?m1 = Some ?pg \<and> ActorID ?pg = ''p1'' \<and> TargetPlayerID ?pg \<noteq> ''p1''
        \<and> Players (game ?m1) ''p1'' = Some ?pa \<and> Players (game ?m1) (TargetPlayerID ?pg) = Some ?pt
        \<and> (0::int) \<le> 1 \<and> 1 < int (length (Cards ?pa))
        \<and> 0 \<le> TargetIndex ?pg \<and> TargetIndex ?pg < int (length (Cards ?pt))
        \<and> Rank (Cards ?pa ! nat 1) \<noteq> ''''"
    using pg pa pt by (simp add: player_def mkCard_def)
  from give [OF this] obtain m2 where
    m2: "perform ''p1'' (GiveCard 1) ?m1 = (True, m2) \<and> pendingGive m2 = None
         \<and> hand (game m2) ''p1'' = (Cards ?pa)[nat 1 := emptyCard]
         \<and> hand (game m2) (TargetPlayerID ?pg)
              = (Cards ?pt)[nat (TargetIndex ?pg) := (Cards ?pa ! nat 1)\<lparr>FaceUp := False\<rparr>]" ..
  then have "perform ''p1'' (GiveCard 1) ?m1 = (True, m2) \<and> pendingGive m2 = None
             \<and> hand (game m2) ''p1''
                  = [mkCard ''5'' ''clubs'' False, emptyCard, mkCard ''J'' ''clubs'' False,
                     mkCard ''A'' ''clubs'' False]
             \<and> hand (game m2) ''p2''
                  = [mkCard ''9'' ''clubs'' False, mkCard ''3'' ''hearts'' False,
                     mkCard ''4'' ''hearts'' False, mkCard ''6'' ''hearts'' False]"
    by (simp add: player_def mkCard_def)
  with st pg empty rejected rejected' show ?thesis by blast
qed

section \<open>Conservation of cards\<close>

lemmas run_defs = lobby5_def started5_def seats5_def afterEight_def turnOfB_def queuedA_def heldByB_def
  beforeLostDraw_def lostDraw_def AddPlayer_def NewGame_def StartGame_def DrawCard_def
  DiscardDrawnCard_def SkipSpecialCard_def EndTurn_def StackCard_def EndRound_def Let_def isSpecial_def
  createDeck_def suits_def ranks_def replicate4

text \<open>The run of \<open>lostDraw\<close>, evaluated: before the second draw of \<open>b\<close> and after it.\<close>

lemma lostDraw_facts:
  "length (Deck lostDraw) = 29" "length (DiscardPile lostDraw) = 2"
  "DrawnCards lostDraw = [''b'' \<mapsto> \<lparr>Suit = ''diamonds'', Rank = ''10'', FaceUp = True\<rparr>]"
  "length (Deck beforeLostDraw) = 30" "length (DiscardPile beforeLostDraw) = 2"
  "DrawnCards beforeLostDraw = [''b'' \<mapsto> \<lparr>Suit = ''diamonds'', Rank = ''9'', FaceUp = True\<rparr>]"
  "CurrentPlayer beforeLostDraw = ''b''" "Players lostDraw = Players beforeLostDraw"
  by (simp_all add: run_defs)

lemma lostDraw_hands: "handsTotal (Players beforeLostDraw) = 19"
proof -
  have "dom (Players beforeLostDraw) = {''a'', ''b'', ''c'', ''d'', ''e''}"
    by (simp add: run_defs) auto
  then show ?thesis
    by (simp add: handsTotal_def nonEmptySlots_def) (simp add: run_defs)
qed

lemma restart_facts:
  "length (Deck (StartGame [''p1'', ''p2''] [''p1'', ''p2''] started2)) = 36"
  "DiscardPile (StartGame [''p1'', ''p2''] [''p1'', ''p2''] started2) = []"
  "DrawnCards (StartGame [''p1'', ''p2''] [''p1'', ''p2''] started2) = Map.empty"
  "handsTotal (Players (StartGame [''p1'', ''p2''] [''p1'', ''p2''] started2)) = 8"
proof -
  let ?g = "StartGame [''p1'', ''p2''] [''p1'', ''p2''] started2"
  show "length (Deck ?g) = 36" "DiscardPile ?g = []" "DrawnCards ?g = Map.empty"
    by (simp_all add: started2_def lobby2_def StartGame_def AddPlayer_def NewGame_def createDeck_def
        suits_def ranks_def replicate4)
  have "dom (Players ?g) = {''p1'', ''p2''}"
    by (simp add: started2_def lobby2_def StartGame_def AddPlayer_def NewGame_def createDeck_def
        suits_def ranks_def replicate4) auto
  then show "handsTotal (Players ?g) = 8"
    by (simp add: handsTotal_def nonEmptySlots_def)
      (simp add: started2_def lobby2_def StartGame_def AddPlayer_def NewGame_def createDeck_def
        suits_def ranks_def replicate4)
qed

text \<open>
  Against claim C1 as stated. Starting the started match \<open>started2\<close> again deals eight
  more cards from its deck and drops the eight that were dealt before: 44 cards are
  left in play. And in the run of \<open>lostDraw\<close>, which never starts the match again, the
  52 cards in play before the second draw of \<open>b\<close> are 51 after it.
\<close>

theorem conservation_counterexample:
  "cardTotalSpec (StartGame [''p1'', ''p2''] [''p1'', ''p2''] started2) = 44
   \<and> cardTotalSpec beforeLostDraw = 52
   \<and> cardTotalSpec (snd (DrawCard ''b'' beforeLostDraw)) = 51"
proof -
  have "cardTotalSpec (StartGame [''p1'', ''p2''] [''p1'', ''p2''] started2) = 44"
    by (simp add: cardTotalSpec_def restart_facts)
  moreover have "cardTotalSpec beforeLostDraw = 52"
    by (simp add: cardTotalSpec_def lostDraw_facts lostDraw_hands)
  moreover have "cardTotalSpec lostDraw = 51"
    by (simp add: cardTotalSpec_def lostDraw_facts lostDraw_hands)
  ultimately show ?thesis by (simp add: lostDraw_def)
qed

subsection \<open>Counting the cards of the hands\<close>

lemma nonEmptySlots_ranked: "allRanked (Cards p) \<Longrightarrow> nonEmptySlots p = length (Cards p)"
  by (simp add: nonEmptySlots_def allRanked_def)

lemma handsTotal_upd:
  assumes "finite (dom m)" and "m k = Some p"
  shows "handsTotal (m(k \<mapsto> p')) + nonEmptySlots p = handsTotal m + nonEmptySlots p'"
proof -
  from assms(2) have k: "k \<in> dom m" by blast
  then have d: "dom (m(k \<mapsto> p')) = dom m" by auto
  let ?f = "\<lambda>pid. nonEmptySlots (the (m pid))"
  let ?f' = "\<lambda>pid. nonEmptySlots (the ((m(k \<mapsto> p')) pid))"
  have rest: "sum ?f' (dom m - {k}) = sum ?f (dom m - {k})"
    by (rule sum.cong) simp_all
  from assms(1) k have "sum ?f (dom m) = ?f k + sum ?f (dom m - {k})"
    by (rule sum.remove)
  moreover from assms(1) k have "sum ?f' (dom m) = ?f' k + sum ?f' (dom m - {k})"
    by (rule sum.remove)
  ultimately show ?thesis
    using rest assms(2) d by (simp add: handsTotal_def)
qed

lemma handsTotal_map:
  assumes "\<And>p. nonEmptySlots (f p) = nonEmptySlots p"
  shows "handsTotal (\<lambda>pid. map_option f (m pid)) = handsTotal m"
proof -
  have d: "dom (\<lambda>pid. map_option f (m pid)) = dom m"
    by (auto simp add: dom_def)
  have "(\<Sum>pid \<in> dom m. nonEmptySlots (the (map_option f (m pid))))
          = (\<Sum>pid \<in> dom m. nonEmptySlots (the (m pid)))"
    by (rule sum.cong) (auto simp add: assms)
  with d show ?thesis by (simp add: handsTotal_def)
qed

lemma allRanked_update: "allRanked cs \<Longrightarrow> Rank c \<noteq> '''' \<Longrightarrow> allRanked (cs[i := c])"
  unfolding allRanked_def using set_update_subset_insert [of cs i c] by auto

lemma allRanked_nth: "allRanked cs \<Longrightarrow> i < length cs \<Longrightarrow> Rank (cs ! i) \<noteq> ''''"
  by (simp add: allRanked_def)

text \<open>Replacing a hand by a ranked hand of the same length changes no count.\<close>

lemma replace_hand:
  assumes "finite (dom m)" and "\<forall>pid p. m pid = Some p \<longrightarrow> allRanked (Cards p)"
    and "m k = Some p" and "allRanked cs" and "length cs = length (Cards p)"
  shows "finite (dom (m(k \<mapsto> p\<lparr>Cards := cs\<rparr>)))
         \<and> (\<forall>pid q. (m(k \<mapsto> p\<lparr>Cards := cs\<rparr>)) pid = Some q \<longrightarrow> allRanked (Cards q))
         \<and> handsTotal (m(k \<mapsto> p\<lparr>Cards := cs\<rparr>)) = handsTotal m"
proof -
  from assms(2,3) have "allRanked (Cards p)" by blast
  then have "nonEmptySlots p = length (Cards p)" by (rule nonEmptySlots_ranked)
  moreover from assms(4) have "nonEmptySlots (p\<lparr>Cards := cs\<rparr>) = length cs"
    by (simp add: nonEmptySlots_ranked)
  ultimately have "handsTotal (m(k \<mapsto> p\<lparr>Cards := cs\<rparr>)) = handsTotal m"
    using handsTotal_upd [OF assms(1,3), of "p\<lparr>Cards := cs\<rparr>"] assms(5) by simp
  with assms(1,2,4) show ?thesis by simp
qed

subsection \<open>The invariant\<close>

lemma wellFormed_no_drawn:
  assumes "wellFormed g" and "DrawnCards g (CurrentPlayer g) = None"
  shows "DrawnCards g = Map.empty"
proof (rule ext)
  fix pid
  show "DrawnCards g pid = None"
  proof (cases "DrawnCards g pid")
    case None
    then show ?thesis .
  next
    case (Some c)
    with assms(1) have "pid = CurrentPlayer g" by (simp add: wellFormed_def)
    with Some assms(2) show ?thesis by simp
  qed
qed

lemma wellFormed_drawn:
  assumes "wellFormed g" and "DrawnCards g pid = Some c"
  shows "DrawnCards g = [pid \<mapsto> c] \<and> pid = CurrentPlayer g \<and> HasDrawnThisTurn g pid \<and> Rank c \<noteq> ''''"
proof -
  from assms have cur: "pid = CurrentPlayer g" and hd: "HasDrawnThisTurn g pid" and rk: "Rank c \<noteq> ''''"
    by (simp_all add: wellFormed_def)
  have "DrawnCards g = [pid \<mapsto> c]"
  proof (rule ext)
    fix q
    show "DrawnCards g q = [pid \<mapsto> c] q"
    proof (cases "DrawnCards g q")
      case None
      with assms(2) show ?thesis by auto
    next
      case (Some c')
      with assms(1) have "q = CurrentPlayer g" by (simp add: wellFormed_def)
      with cur Some assms(2) show ?thesis by simp
    qed
  qed
  with cur hd rk show ?thesis by simp
qed

text \<open>An operation that keeps the drawn cards, the turn and the number of cards.\<close>

lemma wellFormed_frame:
  assumes "wellFormed g"
    and "DrawnCards g' = DrawnCards g" and "CurrentPlayer g' = CurrentPlayer g"
    and "HasDrawnThisTurn g' = HasDrawnThisTurn g"
    and "finite (dom (Players g'))" and "allRanked (Deck g')"
    and "\<forall>pid p. Players g' pid = Some p \<longrightarrow> allRanked (Cards p)"
    and "length (Deck g') + length (DiscardPile g') + handsTotal (Players g')
           = length (Deck g) + length (DiscardPile g) + handsTotal (Players g)"
  shows "wellFormed g'"
  using assms by (simp add: wellFormed_def cardTotal_def)

text \<open>An operation that passes the turn while no card is drawn.\<close>

lemma wellFormed_turn:
  assumes "wellFormed g" and "DrawnCards g = Map.empty" and "DrawnCards g' = Map.empty"
    and "Players g' = Players g" and "Deck g' = Deck g" and "DiscardPile g' = DiscardPile g"
  shows "wellFormed g'"
  using assms by (simp add: wellFormed_def cardTotal_def)

lemma revealAndScore_count: "nonEmptySlots (revealAndScore p) = nonEmptySlots p"
  by (simp add: revealAndScore_def nonEmptySlots_def Let_def filter_map comp_def)

lemma revealAndScore_ranked: "allRanked (Cards p) \<Longrightarrow> allRanked (Cards (revealAndScore p))"
  by (simp add: revealAndScore_def allRanked_def Let_def)

lemma wellFormed_EndRound:
  assumes "wellFormed g"
  shows "wellFormed (EndRound g)"
proof (rule wellFormed_frame [OF assms])
  have "dom (Players (EndRound g)) = dom (Players g)"
    by (auto simp add: EndRound_def dom_def)
  with assms show "finite (dom (Players (EndRound g)))" by (simp add: wellFormed_def)
  from assms show "allRanked (Deck (EndRound g))" by (simp add: wellFormed_def EndRound_def)
  from assms show "\<forall>pid p. Players (EndRound g) pid = Some p \<longrightarrow> allRanked (Cards p)"
    by (auto simp add: wellFormed_def EndRound_def revealAndScore_ranked)
  show "length (Deck (EndRound g)) + length (DiscardPile (EndRound g)) + handsTotal (Players (EndRound g))
          = length (Deck g) + length (DiscardPile g) + handsTotal (Players g)"
    by (simp add: EndRound_def handsTotal_map revealAndScore_count)
qed (simp_all add: EndRound_def)

lemma wellFormed_CallPablo: "wellFormed g \<Longrightarrow> wellFormed (CallPablo pid g)"
  by (simp add: CallPablo_def wellFormed_def cardTotal_def)

subsection \<open>Every operation keeps the invariant\<close>

text \<open>A draw: one card passes from the deck to the current player, who held none.\<close>

lemma wellFormed_drawing:
  assumes "wellFormed g" and "DrawnCards g = Map.empty" and "Deck g = c # rest"
  shows "wellFormed (g\<lparr>Deck := rest,
                       DrawnCards := (DrawnCards g)(CurrentPlayer g \<mapsto> c\<lparr>FaceUp := True\<rparr>),
                       HasDrawnThisTurn := (HasDrawnThisTurn g)(CurrentPlayer g := True)\<rparr>)"
proof -
  from assms(1,3) have "Rank c \<noteq> ''''" and "allRanked rest"
    by (simp_all add: wellFormed_def allRanked_def)
  moreover from assms(1) have "finite (dom (Players g))"
    and "\<forall>pid p. Players g pid = Some p \<longrightarrow> allRanked (Cards p)"
    and "length (Deck g) + length (DiscardPile g) + handsTotal (Players g)
           + card (dom (DrawnCards g)) = 52"
    by (simp_all add: wellFormed_def cardTotal_def)
  ultimately show ?thesis
    using assms(2,3) by (simp add: wellFormed_def cardTotal_def)
qed

lemma wellFormed_DrawCard:
  assumes "wellFormed g"
  shows "wellFormed (snd (DrawCard pid g))"
proof (cases "CurrentPlayer g = pid")
  case False
  with assms show ?thesis by (simp add: DrawCard_def)
next
  case cur: True
  show ?thesis
  proof (cases "Deck g")
    case Nil
    with cur have "snd (DrawCard pid g) = (if Status g = ''playing'' then EndRound g else g)"
      by (simp add: DrawCard_def)
    with assms wellFormed_EndRound [OF assms] show ?thesis by simp
  next
    case (Cons c rest)
    show ?thesis
    proof (cases "HasDrawnThisTurn g pid")
      case True
      with cur Cons have "snd (DrawCard pid g) = g" by (simp add: DrawCard_def)
      with assms show ?thesis by simp
    next
      case False
      have "DrawnCards g (CurrentPlayer g) = None"
      proof (cases "DrawnCards g (CurrentPlayer g)")
        case None
        then show ?thesis .
      next
        case (Some d)
        from wellFormed_drawn [OF assms Some] have "HasDrawnThisTurn g (CurrentPlayer g)" by simp
        with False cur show ?thesis by simp
      qed
      from wellFormed_no_drawn [OF assms this] have e: "DrawnCards g = Map.empty" .
      from False cur Cons
      have res: "snd (DrawCard pid g) = g\<lparr>Deck := rest,
                   DrawnCards := (DrawnCards g)(CurrentPlayer g \<mapsto> c\<lparr>FaceUp := True\<rparr>),
                   HasDrawnThisTurn := (HasDrawnThisTurn g)(CurrentPlayer g := True)\<rparr>"
        by (simp add: DrawCard_def)
      from wellFormed_drawing [OF assms e Cons] show ?thesis
        unfolding res .
    qed
  qed
qed

lemma wellFormed_DiscardDrawnCard:
  assumes "wellFormed g"
  shows "wellFormed (snd (DiscardDrawnCard pid g))"
proof (cases "CurrentPlayer g = pid \<and> DrawnCards g pid \<noteq> None")
  case False
  with assms show ?thesis by (auto simp add: DiscardDrawnCard_def split: option.splits)
next
  case True
  then obtain d where d: "DrawnCards g pid = Some d" and cur: "CurrentPlayer g = pid" by blast
  from wellFormed_drawn [OF assms d] have one: "DrawnCards g = [pid \<mapsto> d]" by simp
  then have e: "(DrawnCards g)(pid := None) = Map.empty" by simp
  from one have c1: "card (dom (DrawnCards g)) = 1" by simp
  let ?c = "d\<lparr>FaceUp := True\<rparr>"
  let ?g1 = "g\<lparr>DiscardPile := DiscardPile g @ [?c], DrawnCards := Map.empty,
               StackableCardIndex := int (length (DiscardPile g @ [?c])) - 1\<rparr>"
  from d cur e have res: "snd (DiscardDrawnCard pid g)
        = (if isSpecial (Rank ?c) then ?g1\<lparr>PendingSpecialCard := Rank ?c\<rparr>
           else ?g1\<lparr>PendingSpecialCard := ''''\<rparr>)"
    by (simp add: DiscardDrawnCard_def Let_def)
  from assms c1 show ?thesis
    unfolding res by (simp add: wellFormed_def cardTotal_def)
qed


lemma wellFormed_SwapCard:
  assumes "wellFormed g" and "SwapCard pid i g = Inr (ok, g')"
  shows "wellFormed g'"
proof (cases ok)
  case False
  with assms(2) have "g' = g"
    by (auto simp add: SwapCard_def Let_def split: if_splits option.splits)
  with assms(1) show ?thesis by simp
next
  case True
  with assms(2) obtain d p where cur: "CurrentPlayer g = pid" and d: "DrawnCards g pid = Some d"
    and p: "Players g pid = Some p" and rng: "0 \<le> i" "i < int (length (Cards p))"
    by (auto simp add: SwapCard_def Let_def split: if_splits option.splits)
  from wellFormed_drawn [OF assms(1) d] have one: "DrawnCards g = [pid \<mapsto> d]" and rk: "Rank d \<noteq> ''''"
    by simp_all
  then have e: "(DrawnCards g)(pid := None) = Map.empty" by simp
  from one have c1: "card (dom (DrawnCards g)) = 1" by simp
  let ?old = "(Cards p ! nat i)\<lparr>FaceUp := True\<rparr>"
  let ?cs = "(Cards p)[nat i := d\<lparr>FaceUp := False\<rparr>]"
  let ?ps = "(Players g)(pid \<mapsto> p\<lparr>Cards := ?cs\<rparr>)"
  let ?g1 = "g\<lparr>Players := ?ps, DiscardPile := DiscardPile g @ [?old], DrawnCards := Map.empty,
               StackableCardIndex := int (length (DiscardPile g @ [?old])) - 1\<rparr>"
  from assms(2) cur d p rng e have res:
    "g' = (if isSpecial (Rank ?old) then ?g1\<lparr>PendingSpecialCard := Rank ?old\<rparr>
           else ?g1\<lparr>PendingSpecialCard := ''''\<rparr>)"
    by (auto simp add: SwapCard_def Let_def split: if_splits)
  from assms(1) have fin: "finite (dom (Players g))"
    and hr: "\<forall>pid p. Players g pid = Some p \<longrightarrow> allRanked (Cards p)"
    by (simp_all add: wellFormed_def)
  from hr p have "allRanked (Cards p)" by blast
  with rk have "allRanked ?cs" by (simp add: allRanked_update)
  from replace_hand [OF fin hr p this] have
    "finite (dom ?ps)" "\<forall>pid q. ?ps pid = Some q \<longrightarrow> allRanked (Cards q)"
    "handsTotal ?ps = handsTotal (Players g)"
    by simp_all
  with assms(1) c1 show ?thesis
    unfolding res by (simp add: wellFormed_def cardTotal_def)
qed


lemma SkipSpecialCard_frame:
  "Players (SkipSpecialCard pid g) = Players g \<and> Deck (SkipSpecialCard pid g) = Deck g
   \<and> DiscardPile (SkipSpecialCard pid g) = DiscardPile g
   \<and> DrawnCards (SkipSpecialCard pid g) = DrawnCards g"
  by (simp add: SkipSpecialCard_def Let_def split: list.splits)

lemma wellFormed_SkipSpecialCard:
  assumes "wellFormed g" and "DrawnCards g pid = None"
  shows "wellFormed (SkipSpecialCard pid g)"
proof (cases "CurrentPlayer g = pid")
  case False
  with assms(1) show ?thesis by (simp add: SkipSpecialCard_def)
next
  case True
  with assms(2) have "DrawnCards g (CurrentPlayer g) = None" by simp
  from wellFormed_no_drawn [OF assms(1) this] have e: "DrawnCards g = Map.empty" .
  show ?thesis
  proof (rule wellFormed_turn [OF assms(1) e])
    from e show "DrawnCards (SkipSpecialCard pid g) = Map.empty"
      by (simp add: SkipSpecialCard_frame)
  qed (simp_all add: SkipSpecialCard_frame)
qed

lemma wellFormed_EndTurn:
  assumes "wellFormed g"
  shows "wellFormed (EndTurn ks pid g)"
proof (cases "CurrentPlayer g = pid \<and> DrawnCards g pid = None")
  case False
  with assms show ?thesis by (auto simp add: EndTurn_def)
next
  case True
  then have "DrawnCards g (CurrentPlayer g) = None" by simp
  from wellFormed_no_drawn [OF assms this] have e: "DrawnCards g = Map.empty" .
  let ?g1 = "g\<lparr>DrawnCards := (DrawnCards g)(pid := None),
               HasDrawnThisTurn := (HasDrawnThisTurn g)(pid := False)\<rparr>"
  from e have e1: "DrawnCards ?g1 = Map.empty" by simp
  have w1: "wellFormed ?g1"
    by (rule wellFormed_turn [OF assms e e1]) simp_all
  from wellFormed_EndRound [OF w1] have w2: "wellFormed (EndRound ?g1)" .
  have w3: "wellFormed (?g1\<lparr>CurrentPlayer := n, HasDrawnThisTurn := h\<rparr>)" for n h
    by (rule wellFormed_turn [OF w1 e1]) (simp_all add: e)
  show ?thesis
  proof (cases "indexOf ks pid")
    case None
    with assms show ?thesis by (simp add: EndTurn_def)
  next
    case (Some i)
    let ?n = "ks ! ((i + 1) mod length ks)"
    have "EndTurn ks pid g = g \<or> EndTurn ks pid g = EndRound ?g1
          \<or> EndTurn ks pid g = ?g1\<lparr>CurrentPlayer := ?n,
                                    HasDrawnThisTurn := (HasDrawnThisTurn ?g1)(?n := False)\<rparr>"
      using Some by (simp add: EndTurn_def Let_def)
    with assms w2 w3 [where n = ?n and h = "(HasDrawnThisTurn ?g1)(?n := False)"] show ?thesis by auto
  qed
qed

lemma wellFormed_StackCard:
  assumes "wellFormed g"
  shows "wellFormed (snd (snd (StackCard pid i g)))"
proof -
  from assms have fin: "finite (dom (Players g))"
    and hr: "\<forall>pid p. Players g pid = Some p \<longrightarrow> allRanked (Cards p)"
    and dr: "allRanked (Deck g)"
    by (simp_all add: wellFormed_def)
  have penalty: "wellFormed (g\<lparr>Deck := rest, Players := (Players g)(pid \<mapsto>
                    p\<lparr>Cards := Cards p @ [c\<lparr>FaceUp := False\<rparr>]\<rparr>)\<rparr>)"
    if p: "Players g pid = Some p" and dk: "Deck g = c # rest" for p c rest
  proof (rule wellFormed_frame [OF assms])
    let ?p' = "p\<lparr>Cards := Cards p @ [c\<lparr>FaceUp := False\<rparr>]\<rparr>"
    let ?g' = "g\<lparr>Deck := rest, Players := (Players g)(pid \<mapsto> ?p')\<rparr>"
    from dr dk have rk: "Rank c \<noteq> ''''" and rr: "allRanked rest" by (simp_all add: allRanked_def)
    from hr p have pr: "allRanked (Cards p)" by blast
    with rk have pr': "allRanked (Cards ?p')" by (simp add: allRanked_def)
    from fin show "finite (dom (Players ?g'))" by simp
    from rr show "allRanked (Deck ?g')" by simp
    from hr pr' show "\<forall>q r. Players ?g' q = Some r \<longrightarrow> allRanked (Cards r)" by simp
    from handsTotal_upd [OF fin p, of ?p'] pr pr'
    have "handsTotal ((Players g)(pid \<mapsto> ?p')) = handsTotal (Players g) + 1"
      by (simp add: nonEmptySlots_ranked)
    with dk show "length (Deck ?g') + length (DiscardPile ?g') + handsTotal (Players ?g')
            = length (Deck g) + length (DiscardPile g) + handsTotal (Players g)"
      by simp
  qed simp_all
  have success: "wellFormed (g\<lparr>DiscardPile := DiscardPile g @ [x],
                     Players := (Players g)(pid \<mapsto>
                       p\<lparr>Cards := take (nat i) (Cards p) @ drop (nat i + 1) (Cards p)\<rparr>),
                     StackedSpecialCardPlayers := q, StackableCardIndex := - 1\<rparr>)"
    if p: "Players g pid = Some p" and rng: "0 \<le> i" "i < int (length (Cards p))" for p x q
  proof (rule wellFormed_frame [OF assms])
    let ?p' = "p\<lparr>Cards := take (nat i) (Cards p) @ drop (nat i + 1) (Cards p)\<rparr>"
    let ?g' = "g\<lparr>DiscardPile := DiscardPile g @ [x], Players := (Players g)(pid \<mapsto> ?p'),
                 StackedSpecialCardPlayers := q, StackableCardIndex := - 1\<rparr>"
    from hr p have pr: "allRanked (Cards p)" by blast
    then have pr': "allRanked (Cards ?p')"
      by (auto simp add: allRanked_def dest: in_set_takeD in_set_dropD)
    from rng have "length (Cards ?p') + 1 = length (Cards p)" by auto
    with handsTotal_upd [OF fin p, of ?p'] pr pr'
    have "handsTotal ((Players g)(pid \<mapsto> ?p')) + 1 = handsTotal (Players g)"
      by (simp add: nonEmptySlots_ranked)
    then show "length (Deck ?g') + length (DiscardPile ?g') + handsTotal (Players ?g')
            = length (Deck g) + length (DiscardPile g) + handsTotal (Players g)"
      by simp
    from fin show "finite (dom (Players ?g'))" by simp
    from dr show "allRanked (Deck ?g')" by simp
    from hr pr' show "\<forall>q r. Players ?g' q = Some r \<longrightarrow> allRanked (Cards r)" by simp
  qed simp_all
  from assms penalty success show ?thesis
    by (simp add: StackCard_def Let_def split: option.splits list.splits)
qed


text \<open>The swap of rank 9 exchanges two ranked cards between ranked hands.\<close>

lemma swapAnyTwo_hands:
  assumes fin: "finite (dom (Players g))"
    and hr: "\<forall>pid p. Players g pid = Some p \<longrightarrow> allRanked (Cards p)"
  shows "finite (dom (Players (snd (swapAnyTwo params g))))
         \<and> (\<forall>pid p. Players (snd (swapAnyTwo params g)) pid = Some p \<longrightarrow> allRanked (Cards p))
         \<and> handsTotal (Players (snd (swapAnyTwo params g))) = handsTotal (Players g)"
proof -
  have swap: "finite (dom ps2) \<and> (\<forall>pid p. ps2 pid = Some p \<longrightarrow> allRanked (Cards p))
              \<and> handsTotal ps2 = handsTotal (Players g)"
    if p1: "Players g a = Some p1" and i1: "0 \<le> i1" "i1 < int (length (Cards p1))"
      and p2: "Players g b = Some p2" and i2: "0 \<le> i2" "i2 < int (length (Cards p2))"
      and ps1: "ps1 = (Players g)(a \<mapsto> p1\<lparr>Cards := (Cards p1)[nat i1 := Cards p2 ! nat i2]\<rparr>)"
      and ps2: "ps2 = (case ps1 b of None \<Rightarrow> ps1
                       | Some q \<Rightarrow> ps1(b \<mapsto> q\<lparr>Cards := (Cards q)[nat i2 := Cards p1 ! nat i1]\<rparr>))"
    for a b p1 p2 i1 i2 ps1 ps2
  proof -
    from hr p1 have r1: "allRanked (Cards p1)" by blast
    from hr p2 have r2: "allRanked (Cards p2)" by blast
    from r1 i1 have c1: "Rank (Cards p1 ! nat i1) \<noteq> ''''" by (intro allRanked_nth) simp_all
    from r2 i2 have c2: "Rank (Cards p2 ! nat i2) \<noteq> ''''" by (intro allRanked_nth) simp_all
    from r1 c2 have "allRanked ((Cards p1)[nat i1 := Cards p2 ! nat i2])" by (rule allRanked_update)
    from replace_hand [OF fin hr p1 this] have
      f1: "finite (dom ps1)" and h1: "\<forall>pid q. ps1 pid = Some q \<longrightarrow> allRanked (Cards q)"
      and t1: "handsTotal ps1 = handsTotal (Players g)"
      unfolding ps1 by simp_all
    from p2 have "b \<in> dom ps1" unfolding ps1 by auto
    then obtain q where q: "ps1 b = Some q" by blast
    with h1 have "allRanked (Cards q)" by blast
    with c1 have "allRanked ((Cards q)[nat i2 := Cards p1 ! nat i1])" by (simp add: allRanked_update)
    from replace_hand [OF f1 h1 q this] t1 q show ?thesis
      unfolding ps2 by simp
  qed
  have cards: "finite (dom (Players (snd (swapCards a i1 b i2 g))))
         \<and> (\<forall>pid p. Players (snd (swapCards a i1 b i2 g)) pid = Some p \<longrightarrow> allRanked (Cards p))
         \<and> handsTotal (Players (snd (swapCards a i1 b i2 g))) = handsTotal (Players g)"
    for a i1 b i2
  proof (cases "Players g a")
    case None
    with fin hr show ?thesis by (simp add: swapCards_def)
  next
    case p1: (Some p1)
    show ?thesis
    proof (cases "0 \<le> i1 \<and> i1 < int (length (Cards p1))")
      case False
      with p1 have "swapCards a i1 b i2 g = ([], g)" by (auto simp add: swapCards_def)
      with fin hr show ?thesis by simp
    next
      case r1: True
      show ?thesis
      proof (cases "Players g b")
        case None
        with p1 r1 have "swapCards a i1 b i2 g = ([], g)" by (auto simp add: swapCards_def)
        with fin hr show ?thesis by simp
      next
        case p2: (Some p2)
        show ?thesis
        proof (cases "0 \<le> i2 \<and> i2 < int (length (Cards p2))")
          case False
          with p1 r1 p2 have "swapCards a i1 b i2 g = ([], g)" by (auto simp add: swapCards_def)
          with fin hr show ?thesis by simp
        next
          case r2: True
          define ps1 where "ps1 = (Players g)(a \<mapsto> p1\<lparr>Cards := (Cards p1)[nat i1 := Cards p2 ! nat i2]\<rparr>)"
          define ps2 where "ps2 = (case ps1 b of None \<Rightarrow> ps1
                       | Some q \<Rightarrow> ps1(b \<mapsto> q\<lparr>Cards := (Cards q)[nat i2 := Cards p1 ! nat i1]\<rparr>))"
          from p1 r1 p2 r2 have res: "snd (swapCards a i1 b i2 g) = g\<lparr>Players := ps2\<rparr>"
            unfolding ps2_def ps1_def by (auto simp add: swapCards_def Let_def)
          from r1 r2 swap [OF p1 _ _ p2 _ _ ps1_def ps2_def] show ?thesis
            unfolding res by simp
        qed
      qed
    qed
  qed
  show ?thesis
    using fin hr cards by (simp add: swapAnyTwo_def split: option.splits)
qed

lemma Use_rejected:
  assumes "UseSpecialCardFromDiscard pid r params g = Inr (False, msgs, g')"
  shows "g' = g"
  using assms
  by (auto simp add: UseSpecialCardFromDiscard_def Let_def split: if_splits sum.splits list.splits)

lemma Use_accepted:
  assumes "UseSpecialCardFromDiscard pid r params g = Inr (True, msgs, g')"
  shows "CurrentPlayer g = pid
         \<and> (\<exists>ms g1. specialEffect pid r params g = Inr (ms, g1) \<and> Players g' = Players g1
               \<and> Deck g' = Deck g1 \<and> DiscardPile g' = DiscardPile g1
               \<and> DrawnCards g' = DrawnCards g1)"
  using assms
  by (auto simp add: UseSpecialCardFromDiscard_def Let_def split: if_splits sum.splits list.splits)

lemma wellFormed_Use:
  assumes "wellFormed g" and "DrawnCards g pid = None"
    and "UseSpecialCardFromDiscard pid r params g = Inr (ok, msgs, g')"
  shows "wellFormed g'"
proof (cases ok)
  case False
  with assms(3) have "g' = g" by (simp add: Use_rejected)
  with assms(1) show ?thesis by simp
next
  case True
  with assms(3) have "UseSpecialCardFromDiscard pid r params g = Inr (True, msgs, g')" by simp
  from Use_accepted [OF this] have cur: "CurrentPlayer g = pid"
    and "\<exists>ms g1. specialEffect pid r params g = Inr (ms, g1) \<and> Players g' = Players g1
               \<and> Deck g' = Deck g1 \<and> DiscardPile g' = DiscardPile g1
               \<and> DrawnCards g' = DrawnCards g1"
    by simp_all
  then obtain ms g1 where eff: "specialEffect pid r params g = Inr (ms, g1)"
    and same: "Players g' = Players g1" "Deck g' = Deck g1" "DiscardPile g' = DiscardPile g1"
      "DrawnCards g' = DrawnCards g1"
    by blast
  from cur assms(2) have "DrawnCards g (CurrentPlayer g) = None" by simp
  from wellFormed_no_drawn [OF assms(1) this] have e: "DrawnCards g = Map.empty" .
  from assms(1) have fin: "finite (dom (Players g))"
    and hr: "\<forall>pid p. Players g pid = Some p \<longrightarrow> allRanked (Cards p)"
    and dr: "allRanked (Deck g)"
    by (simp_all add: wellFormed_def)
  from specialEffect_frame [OF eff] have g1: "g1 = g\<lparr>Players := Players g1\<rparr>" by simp
  have hands: "finite (dom (Players g1))
         \<and> (\<forall>pid p. Players g1 pid = Some p \<longrightarrow> allRanked (Cards p))
         \<and> handsTotal (Players g1) = handsTotal (Players g)"
  proof (cases "r = ''9''")
    case False
    with specialEffect_peek [OF eff] fin hr show ?thesis by simp
  next
    case True
    with eff have "g1 = snd (swapAnyTwo params g)" by (simp add: specialEffect_def)
    with swapAnyTwo_hands [OF fin hr, of params] show ?thesis by simp
  qed
  have f: "DrawnCards g1 = DrawnCards g" "CurrentPlayer g1 = CurrentPlayer g"
    "HasDrawnThisTurn g1 = HasDrawnThisTurn g" "Deck g1 = Deck g" "DiscardPile g1 = DiscardPile g"
    by (subst g1, simp)+
  have w1: "wellFormed g1"
    by (rule wellFormed_frame [OF assms(1)]) (use f hands dr in simp_all)
  from e f have e1: "DrawnCards g1 = Map.empty" by simp
  show ?thesis
    by (rule wellFormed_turn [OF w1 e1]) (use same e1 in simp_all)
qed

subsection \<open>The first state of a match\<close>

lemma createDeck_facts: "length createDeck = 52" "allRanked createDeck"
  by (simp_all add: createDeck_def suits_def ranks_def allRanked_def)

lemma AddPlayer_dom:
  "dom (Players (snd (AddPlayer pid name g)))
     = (if 6 \<le> card (dom (Players g)) then dom (Players g) else insert pid (dom (Players g)))"
  by (simp add: AddPlayer_def)

lemma lobby_facts:
  assumes "lobby g"
  shows "mset (Deck g) = mset createDeck \<and> DiscardPile g = [] \<and> DrawnCards g = Map.empty
         \<and> finite (dom (Players g)) \<and> card (dom (Players g)) \<le> 6"
  using assms
proof (induction rule: lobby.induct)
  case (lobby_new deck gid)
  then show ?case by (simp add: NewGame_def)
next
  case (lobby_add g pid name)
  then have fin: "finite (dom (Players g))" by simp
  show ?case
  proof (cases "6 \<le> card (dom (Players g))")
    case True
    with lobby_add.IH show ?thesis by (simp add: AddPlayer_frame AddPlayer_dom)
  next
    case False
    from fin have "card (insert pid (dom (Players g))) \<le> Suc (card (dom (Players g)))"
      by (simp add: card_insert_if)
    with False lobby_add.IH show ?thesis by (simp add: AddPlayer_frame AddPlayer_dom)
  qed
qed

lemma dealLoop4:
  assumes "4 \<le> length deck"
  shows "dealLoop [0, 1, 2, 3] (replicate 4 emptyCard) deck = (take 4 deck, drop 4 deck)"
proof -
  from assms obtain a b c d rest where "deck = a # b # c # d # rest"
    by (metis Suc_le_length_iff eval_nat_numeral(2) numeral_2_eq_2 semiring_norm(26,27) add_2_eq_Suc'
        numeral_Bit0)
  then show ?thesis by (simp add: replicate4)
qed

text \<open>Dealing to the seated players \<open>ks\<close> from a deck that is long enough.\<close>

lemma dealPlayers_deals:
  assumes "distinct ks" and "set ks \<subseteq> dom (Players g)" and "4 * length ks \<le> length (Deck g)"
    and "allRanked (Deck g)"
  shows "Deck (dealPlayers ks g) = drop (4 * length ks) (Deck g)
         \<and> (\<forall>k \<in> set ks. \<exists>p. Players (dealPlayers ks g) k = Some p \<and> length (Cards p) = 4
                \<and> allRanked (Cards p))
         \<and> (\<forall>k. k \<notin> set ks \<longrightarrow> Players (dealPlayers ks g) k = Players g k)"
  using assms
proof (induction ks arbitrary: g)
  case Nil
  then show ?case by simp
next
  case (Cons k ks)
  from Cons.prems(2) obtain p where p: "Players g k = Some p" by auto
  from Cons.prems(3) have four: "4 \<le> length (Deck g)" by simp
  let ?g = "g\<lparr>Players := (Players g)(k \<mapsto> p\<lparr>Cards := take 4 (Deck g)\<rparr>), Deck := drop 4 (Deck g)\<rparr>"
  from p dealLoop4 [OF four] have step: "dealPlayers (k # ks) g = dealPlayers ks ?g" by simp
  from Cons.prems have pre: "distinct ks" "set ks \<subseteq> dom (Players ?g)"
    "4 * length ks \<le> length (Deck ?g)" "allRanked (Deck ?g)"
    by (auto simp add: allRanked_def dest: in_set_dropD)
  from Cons.IH [OF pre] have
    dk: "Deck (dealPlayers ks ?g) = drop (4 * length ks) (Deck ?g)"
    and dealt: "\<forall>k' \<in> set ks. \<exists>q. Players (dealPlayers ks ?g) k' = Some q \<and> length (Cards q) = 4
                  \<and> allRanked (Cards q)"
    and others: "\<forall>k'. k' \<notin> set ks \<longrightarrow> Players (dealPlayers ks ?g) k' = Players ?g k'"
    by simp_all
  from Cons.prems(1) have "k \<notin> set ks" by simp
  with others have "Players (dealPlayers ks ?g) k = Some (p\<lparr>Cards := take 4 (Deck g)\<rparr>)" by simp
  moreover from four Cons.prems(4) have "length (take 4 (Deck g)) = 4" "allRanked (take 4 (Deck g))"
    by (auto simp add: allRanked_def dest: in_set_takeD)
  ultimately have k: "\<exists>q. Players (dealPlayers ks ?g) k = Some q \<and> length (Cards q) = 4
                        \<and> allRanked (Cards q)"
    by simp
  from dk have "Deck (dealPlayers ks ?g) = drop (4 * length (k # ks)) (Deck g)"
    by (simp add: add.commute)
  moreover from k dealt have "\<forall>k' \<in> set (k # ks). \<exists>q. Players (dealPlayers ks ?g) k' = Some q
                      \<and> length (Cards q) = 4 \<and> allRanked (Cards q)"
    by simp
  moreover from others have "\<forall>k'. k' \<notin> set (k # ks) \<longrightarrow> Players (dealPlayers ks ?g) k' = Players g k'"
    by simp
  ultimately show ?case unfolding step by blast
qed

lemma wellFormed_StartGame:
  assumes "lobby g" and "2 \<le> card (dom (Players g))" and "enumerates g ks"
  shows "wellFormed (StartGame ks ks' g)"
proof -
  let ?g0 = "g\<lparr>Status := ''playing''\<rparr>"
  let ?gd = "dealPlayers ks ?g0"
  from lobby_facts [OF assms(1)] have deck: "mset (Deck g) = mset createDeck"
    and pile: "DiscardPile g = []" and drawn: "DrawnCards g = Map.empty"
    and fin: "finite (dom (Players g))" and six: "card (dom (Players g)) \<le> 6"
    by simp_all
  from deck have "size (mset (Deck g)) = size (mset createDeck)" by simp
  then have len: "length (Deck g) = 52" by (simp add: createDeck_facts)
  from deck have "set (Deck g) = set createDeck" by (rule mset_eq_setD)
  with createDeck_facts(2) have rk: "allRanked (Deck g)" by (simp add: allRanked_def)
  from assms(3) have dist: "distinct ks" and ks: "set ks = dom (Players g)"
    by (simp_all add: enumerates_def)
  from dist ks have n: "length ks = card (dom (Players g))" by (metis distinct_card)
  with six len have enough: "4 * length ks \<le> length (Deck ?g0)" by simp
  from dealPlayers_deals [OF dist _ enough] ks rk have
    dk: "Deck ?gd = drop (4 * length ks) (Deck g)"
    and dealt: "\<forall>k \<in> set ks. \<exists>p. Players ?gd k = Some p \<and> length (Cards p) = 4 \<and> allRanked (Cards p)"
    by simp_all
  from dealPlayers_frame [of ks ?g0] have
    dom: "dom (Players ?gd) = dom (Players g)" and pile': "DiscardPile ?gd = DiscardPile g"
    and drawn': "DrawnCards ?gd = DrawnCards g"
    by simp_all
  have each: "nonEmptySlots (the (Players ?gd k)) = 4" if "k \<in> dom (Players g)" for k
  proof -
    from that ks dealt obtain p where "Players ?gd k = Some p" "length (Cards p) = 4" "allRanked (Cards p)"
      by blast
    then show ?thesis by (simp add: nonEmptySlots_ranked)
  qed
  have "handsTotal (Players ?gd) = (\<Sum>k \<in> dom (Players g). 4)"
    unfolding handsTotal_def dom by (rule sum.cong) (simp_all add: each)
  with n have hands: "handsTotal (Players ?gd) = 4 * length ks" by simp
  have ranked: "\<forall>pid p. Players ?gd pid = Some p \<longrightarrow> allRanked (Cards p)"
  proof (intro allI impI)
    fix pid p
    assume p: "Players ?gd pid = Some p"
    then have "pid \<in> dom (Players ?gd)" by blast
    with dom ks have "pid \<in> set ks" by simp
    with dealt p show "allRanked (Cards p)" by auto
  qed
  from rk have rk': "allRanked (drop (4 * length ks) (Deck g))"
    by (auto simp add: allRanked_def dest: in_set_dropD)
  from enough len have "length (drop (4 * length ks) (Deck g)) + 4 * length ks = 52" by simp
  with assms(2) fin dom dk rk' ranked hands pile pile' drawn drawn' show ?thesis
    by (simp add: StartGame_def wellFormed_def cardTotal_def)
qed

subsection \<open>Conservation\<close>

lemma played_wellFormed:
  assumes "played g"
  shows "wellFormed g"
  using assms
proof (induction rule: played.induct)
  case (p_start g ks ks')
  then show ?case by (simp add: wellFormed_StartGame)
next
  case (p_draw g pid)
  then show ?case by (simp add: wellFormed_DrawCard)
next
  case (p_discard g pid)
  then show ?case by (simp add: wellFormed_DiscardDrawnCard)
next
  case (p_swap g pid i ok g')
  then show ?case using wellFormed_SwapCard by blast
next
  case (p_use g pid r params ok msgs g')
  then show ?case using wellFormed_Use by blast
next
  case (p_skip g pid)
  then show ?case by (simp add: wellFormed_SkipSpecialCard)
next
  case (p_endTurn g ks pid)
  then show ?case by (simp add: wellFormed_EndTurn)
next
  case (p_stack g pid i)
  then show ?case by (simp add: wellFormed_StackCard)
next
  case (p_pablo g pid)
  then show ?case by (simp add: wellFormed_CallPablo)
qed

lemma wellFormed_total:
  assumes "wellFormed g"
  shows "cardTotalSpec g = 52 \<and> dom (DrawnCards g) \<subseteq> {CurrentPlayer g}"
proof (cases "DrawnCards g (CurrentPlayer g)")
  case None
  from wellFormed_no_drawn [OF assms None] have "DrawnCards g = Map.empty" .
  with assms show ?thesis by (simp add: wellFormed_def cardTotal_def cardTotalSpec_def)
next
  case (Some c)
  from wellFormed_drawn [OF assms Some] have one: "DrawnCards g = [CurrentPlayer g \<mapsto> c]" by simp
  then have "card (dom (DrawnCards g)) = 1" and "dom (DrawnCards g) \<subseteq> {CurrentPlayer g}"
    by simp_all
  moreover from Some have "DrawnCards g \<noteq> Map.empty" by auto
  ultimately show ?thesis
    using assms by (simp add: wellFormed_def cardTotal_def cardTotalSpec_def)
qed

text \<open>
  Claim C1 (card conservation), as the code has it. In every state of a match that was
  started once and is then played by draws, discards, swaps, stacks, ends of turn and
  Pablo calls by any player at any time, and by uses and skips of a special card by a
  player who holds no drawn card, the deck, the discard pile, the non-empty hand slots
  and the pending drawn card add up to 52 cards, and only the current player holds a
  drawn card.
\<close>

theorem conservation:
  assumes "played g"
  shows "cardTotalSpec g = 52 \<and> dom (DrawnCards g) \<subseteq> {CurrentPlayer g}"
  using played_wellFormed [OF assms] by (rule wellFormed_total)

text \<open>
  The theorem at work: \<open>started2\<close> is a match of two players started once, and after
  the first draw of \<open>p1\<close> the cards add up to 52.
\<close>

theorem conservation_witness:
  "played (snd (DrawCard ''p1'' started2))
   \<and> cardTotalSpec (snd (DrawCard ''p1'' started2)) = 52
   \<and> DrawnCards (snd (DrawCard ''p1'' started2)) ''p1'' \<noteq> None"
proof -
  have "lobby (NewGame ''m'' createDeck)"
    by (rule lobby_new) simp
  then have l: "lobby lobby2"
    unfolding lobby2_def by (intro lobby_add)
  have two: "2 \<le> card (dom (Players lobby2))"
    by (simp add: lobby2_facts)
  have en: "enumerates lobby2 [''p1'', ''p2'']"
    by (simp add: enumerates_def lobby2_facts)
  from p_start [OF l two en en] have "played started2"
    by (simp add: started2_def)
  then have p: "played (snd (DrawCard ''p1'' started2))"
    by (rule p_draw)
  have "DrawnCards (snd (DrawCard ''p1'' started2)) ''p1'' \<noteq> None"
    using started2_facts
    by (simp add: DrawCard_def createDeck_def suits_def ranks_def)
  with p conservation [OF p] show ?thesis by simp
qed

end
